theory Spec2Isabelle
  imports Main "HOL-Library.Sublist"
begin

chapter \<open>The warehouse order picker\<close>

text \<open>
  A model of the product picker of \<^verbatim>\<open>static/js/ui-utils.js\<close> (the module that
  exports \<^verbatim>\<open>WarehouseOrderPicker\<close>): the prefetch cache and its local filter, the
  debounced remote search with its request ids, the selection of a product with its quantity
  bound, and the collection of the order items. Each function of the module is a function on
  an explicit state; what the browser does between two calls (a timer fires, a response
  arrives, the user types) is an event, and a run of the picker is a list of events.
\<close>

section \<open>JavaScript strings and numbers\<close>

text \<open>
  Strings are lists of characters. Three library functions of the host language are used by
  the picker in \<^verbatim>\<open>static/js/ui-utils.js\<close>: \<^verbatim>\<open>String.prototype.trim\<close>,
  \<^verbatim>\<open>String.prototype.toLowerCase\<close> and \<^verbatim>\<open>parseInt(s, 10)\<close>. They are modelled on
  the ASCII range: white space is space, tab, line feed, vertical tab, form feed and carriage
  return, and only the letters A to Z have a lower-case form.
\<close>

definition is_ws :: "char \<Rightarrow> bool" where
  "is_ws c = (c \<in> set [CHR 0x20, CHR 0x09, CHR 0x0A, CHR 0x0B, CHR 0x0C, CHR 0x0D])"

definition trim :: "string \<Rightarrow> string" where
  "trim s = rev (dropWhile is_ws (rev (dropWhile is_ws s)))"

definition lower_char :: "char \<Rightarrow> char" where
  "lower_char c =
     (case map_of (zip ''ABCDEFGHIJKLMNOPQRSTUVWXYZ'' ''abcdefghijklmnopqrstuvwxyz'') c of
        None \<Rightarrow> c
      | Some d \<Rightarrow> d)"

definition toLowerCase :: "string \<Rightarrow> string" where
  "toLowerCase s = map lower_char s"

text \<open>\<^verbatim>\<open>haystack.includes(needle)\<close>: the needle occurs as a contiguous run of the haystack.\<close>

fun str_includes :: "string \<Rightarrow> string \<Rightarrow> bool" where
  "str_includes [] needle = (needle = [])"
| "str_includes (c # cs) needle = (prefix needle (c # cs) \<or> str_includes cs needle)"

text \<open>\<^verbatim>\<open>parts.join(sep)\<close>.\<close>

fun join :: "string \<Rightarrow> string list \<Rightarrow> string" where
  "join sep [] = []"
| "join sep [s] = s"
| "join sep (s # t # ts) = s @ sep @ join sep (t # ts)"

text \<open>Decimal digits, and the decimal rendering of a number (\<^verbatim>\<open>String(n)\<close>, template strings).\<close>

definition digit_chars :: string where
  "digit_chars = ''0123456789''"

definition is_digit :: "char \<Rightarrow> bool" where
  "is_digit c = (c \<in> set digit_chars)"

definition digit_val :: "char \<Rightarrow> nat" where
  "digit_val c = length (takeWhile (\<lambda>d. d \<noteq> c) digit_chars)"

fun show_nat :: "nat \<Rightarrow> string" where
  "show_nat n = (if n < 10 then [digit_chars ! n] else show_nat (n div 10) @ [digit_chars ! (n mod 10)])"

declare show_nat.simps [simp del]

definition show_int :: "int \<Rightarrow> string" where
  "show_int i = (if i < 0 then CHR ''-'' # show_nat (nat (- i)) else show_nat (nat i))"

definition digits_val :: "string \<Rightarrow> nat" where
  "digits_val ds = foldl (\<lambda>a c. 10 * a + digit_val c) 0 ds"

text \<open>
  \<^verbatim>\<open>parseInt(s, 10)\<close>: leading white space is skipped, one sign is accepted, then the longest
  run of decimal digits is read. \<open>None\<close> is \<^verbatim>\<open>NaN\<close> (no digit). Numbers are mathematical
  integers here.
\<close>

definition parseInt :: "string \<Rightarrow> int option" where
  "parseInt s =
     (let s1 = dropWhile is_ws s;
          neg = (case s1 of [] \<Rightarrow> False | c # _ \<Rightarrow> c = CHR ''-'');
          s2 = (case s1 of [] \<Rightarrow> [] | c # cs \<Rightarrow> if c = CHR ''-'' \<or> c = CHR ''+'' then cs else s1);
          ds = takeWhile is_digit s2
      in if ds = [] then None
         else Some (if neg then - int (digits_val ds) else int (digits_val ds)))"

text \<open>\<^verbatim>\<open>parseInt(s, 10) || 0\<close>: \<^verbatim>\<open>NaN\<close> and zero are falsy.\<close>

definition parseInt_or0 :: "string \<Rightarrow> int" where
  "parseInt_or0 s = (case parseInt s of None \<Rightarrow> 0 | Some v \<Rightarrow> v)"

text \<open>\<^verbatim>\<open>value || fallback\<close> on an optional string: undefined, null and the empty string are falsy.\<close>

definition or_str :: "string option \<Rightarrow> string \<Rightarrow> string" where
  "or_str v d = (case v of None \<Rightarrow> d | Some s \<Rightarrow> if s = [] then d else s)"

section \<open>Products and the suggestion box\<close>

text \<open>
  A product as the server sends it; every field may be absent. The available quantity is an
  integer.
\<close>

record product =
  p_id :: "string option"
  p_name :: "string option"
  p_sku :: "string option"
  p_tag :: "string option"
  p_qty_available :: "int option"
  p_image_url :: "string option"

definition DISPLAY_LIMIT :: nat where
  "DISPLAY_LIMIT = 30"

definition PREFETCH_LIMIT :: nat where
  "PREFETCH_LIMIT = 300"

definition truthy_str :: "string option \<Rightarrow> bool" where
  "truthy_str v = (case v of None \<Rightarrow> False | Some s \<Rightarrow> s \<noteq> [])"

definition formatMetaText :: "product \<Rightarrow> string" where
  "formatMetaText p =
     join [CHR 0x20, CHR 0xC2, CHR 0xB7, CHR 0x20]
       ((case p_qty_available p of None \<Rightarrow> [] | Some q \<Rightarrow> [''Available: '' @ show_int q])
        @ (if truthy_str (p_tag p) then [or_str (p_tag p) []] else [])
        @ (if truthy_str (p_sku p) then [''SKU: '' @ or_str (p_sku p) []] else []))"

text \<open>What the suggestion box shows: nothing, one message item, or a list of product buttons.\<close>

datatype box_content = Blank | Message string | Suggestions "product list"

section \<open>The prefetch cache filter\<close>

definition combined :: "product \<Rightarrow> string" where
  "combined p =
     join '' '' (map toLowerCase [or_str (p_name p) [], or_str (p_sku p) [], or_str (p_tag p) []])"

text \<open>The \<^verbatim>\<open>for ... of\<close> loop of \<^verbatim>\<open>filterLocalProducts\<close>, with its \<^verbatim>\<open>break\<close>.\<close>

fun filter_loop :: "string \<Rightarrow> product list \<Rightarrow> product list \<Rightarrow> product list" where
  "filter_loop needle [] matches = matches"
| "filter_loop needle (p # ps) matches =
     (if str_includes (combined p) needle
      then (if length (matches @ [p]) \<ge> DISPLAY_LIMIT then matches @ [p]
            else filter_loop needle ps (matches @ [p]))
      else filter_loop needle ps matches)"

definition filterLocalProducts :: "string \<Rightarrow> product list \<Rightarrow> product list" where
  "filterLocalProducts query cache =
     (if cache = [] then []
      else if query = [] then take DISPLAY_LIMIT cache
      else filter_loop (toLowerCase query) cache [])"

section \<open>One picker row\<close>

text \<open>
  The DOM state of one row built by \<^verbatim>\<open>createRow\<close>: the values of its inputs, the
  \<^verbatim>\<open>dataset\<close> entries the picker writes (\<open>None\<close> is an entry never written), the
  \<^verbatim>\<open>max\<close> attribute of the quantity input, and the suggestion box with its
  \<^verbatim>\<open>d-none\<close> class.
\<close>

record row =
  search_value :: string
  hidden_value :: string
  meta_text :: string
  qty_value :: string
  qty_max_data :: "string option"
  qty_max_attr :: "string option"
  avail_text :: string
  avail_hidden :: bool
  expected_value :: string
  notes_value :: string
  product_tag :: "string option"
  remote_request_id :: "string option"
  box :: box_content
  box_hidden :: bool

definition blank_row :: row where
  "blank_row =
     \<lparr>search_value = [], hidden_value = [], meta_text = [], qty_value = ''1'',
      qty_max_data = None, qty_max_attr = None, avail_text = [], avail_hidden = True,
      expected_value = [], notes_value = [], product_tag = None, remote_request_id = None,
      box = Blank, box_hidden = True\<rparr>"

record render_options =
  opt_limit :: "nat option"
  opt_emptyMessage :: "string option"

definition renderMessage :: "string \<Rightarrow> row \<Rightarrow> row" where
  "renderMessage message r =
     r\<lparr>box := Message (if message = [] then ''No matching products'' else message),
       box_hidden := False\<rparr>"

definition renderSuggestions :: "product list \<Rightarrow> render_options \<Rightarrow> row \<Rightarrow> row" where
  "renderSuggestions items options r =
     (let limit = (case opt_limit options of None \<Rightarrow> DISPLAY_LIMIT
                   | Some l \<Rightarrow> if l = 0 then DISPLAY_LIMIT else l);
          subset = take limit items
      in if subset = [] then renderMessage (or_str (opt_emptyMessage options) ''No products found.'') r
         else r\<lparr>box := Suggestions subset, box_hidden := False\<rparr>)"

definition selectProduct :: "product \<Rightarrow> row \<Rightarrow> row" where
  "selectProduct p r =
     (let r1 = r\<lparr>hidden_value := or_str (p_id p) [],
                  search_value := or_str (p_name p) [],
                  meta_text := formatMetaText p,
                  product_tag := Some (or_str (p_tag p) ''Warehouse'')\<rparr>;
          maxQty = (case p_qty_available p of None \<Rightarrow> 0 | Some q \<Rightarrow> q);
          r2 = (if maxQty \<noteq> 0
                then (let r3 = r1\<lparr>qty_max_data := Some (show_int maxQty),
                                    qty_max_attr := Some (show_int maxQty)\<rparr>
                      in if qty_value r3 = [] \<or> (case parseInt (qty_value r3) of None \<Rightarrow> False | Some v \<Rightarrow> v < 1)
                         then r3\<lparr>qty_value := ''1''\<rparr> else r3)
                else r1\<lparr>qty_max_data := Some [], qty_max_attr := None\<rparr>)
      in r2\<lparr>avail_hidden := True\<rparr>)"

text \<open>The bound as the picker reads it back: \<^verbatim>\<open>parseInt(qtyInput.dataset.maxQty || "0", 10) || 0\<close>.\<close>

definition max_bound :: "row \<Rightarrow> int" where
  "max_bound r = parseInt_or0 (or_str (qty_max_data r) ''0'')"

definition qty_number :: "row \<Rightarrow> int" where
  "qty_number r = parseInt_or0 (if qty_value r = [] then ''0'' else qty_value r)"

definition updateAvailabilityMessage :: "row \<Rightarrow> row" where
  "updateAvailabilityMessage r =
     (let maxQty = max_bound r; v = qty_number r
      in if maxQty \<noteq> 0 \<and> v > maxQty
         then r\<lparr>avail_text := ''Only '' @ show_int maxQty @ '' units available from ''
                                @ or_str (product_tag r) ''this product'' @ ''.'',
                 avail_hidden := False\<rparr>
         else r\<lparr>avail_hidden := True\<rparr>)"

section \<open>Gathering the order items\<close>

record item =
  item_product_id :: string
  item_qty :: int
  item_expected_date :: "string option"
  item_notes :: string

text \<open>The body of the \<^verbatim>\<open>rows.forEach\<close> callback of \<^verbatim>\<open>gatherItems\<close>, on the two accumulators.\<close>

definition gather_row :: "nat \<Rightarrow> row \<Rightarrow> item list \<times> string list \<Rightarrow> item list \<times> string list" where
  "gather_row index r acc =
     (let productId = trim (hidden_value r);
          expected = (if expected_value r = [] then None else Some (expected_value r));
          notes = trim (notes_value r);
          qty = qty_number r;
          maxQty = max_bound r
      in if productId = []
         then (if qty > 0 \<or> trim (search_value r) \<noteq> []
               then (fst acc, snd acc @ [''Row '' @ show_nat (index + 1) @ '': select a warehouse product.''])
               else acc)
         else if qty \<le> 0
         then (fst acc, snd acc @ [''Row '' @ show_nat (index + 1) @ '': quantity must be at least 1.''])
         else if maxQty \<noteq> 0 \<and> qty > maxQty
         then (fst acc, snd acc @ [''Row '' @ show_nat (index + 1) @ '': requested quantity ('' @ show_int qty
                                   @ '') exceeds available stock ('' @ show_int maxQty @ '').''])
         else (fst acc @ [\<lparr>item_product_id = productId, item_qty = qty, item_expected_date = expected,
                         item_notes = notes\<rparr>],
               snd acc))"

fun gather_rows :: "nat \<Rightarrow> row list \<Rightarrow> item list \<times> string list \<Rightarrow> item list \<times> string list" where
  "gather_rows index [] acc = acc"
| "gather_rows index (r # rs) acc = gather_rows (index + 1) rs (gather_row index r acc)"

definition gatherItems :: "row list \<Rightarrow> item list \<times> string list" where
  "gatherItems rows = gather_rows 0 rows ([], [])"

section \<open>The picker as an event-driven system\<close>

text \<open>
  The module state (\<^verbatim>\<open>prefetchCache\<close>, \<^verbatim>\<open>prefetchPromise\<close>), the browser's side of it
  (the requests sent, the table of pending timers, the suspended calls of
  \<^verbatim>\<open>fetchRemoteProducts\<close>, the \<^verbatim>\<open>then\<close> callbacks waiting for the prefetch, whether the
  search input has the focus) and one row with the two timer handles that
  \<^verbatim>\<open>attachRowListeners\<close> keeps for it.
\<close>

datatype promise_state = Pending | Settled

datatype request = PrefetchReq nat | SearchReq string

text \<open>A timer callback: the debounced remote lookup (query, request id) or hiding the box.\<close>

datatype timer_cb = RemoteLookup string string | HideBox

text \<open>
  A suspended call of \<^verbatim>\<open>fetchRemoteProducts\<close> (query, request id): at
  \<^verbatim>\<open>await fetch(url)\<close> or at \<^verbatim>\<open>await res.json()\<close>.
\<close>

datatype flight = AwaitFetch string string | AwaitJson string string

datatype fetch_outcome = FetchRejected | Response nat

text \<open>
  What \<^verbatim>\<open>res.json()\<close> gives: a rejection (the body is not JSON), \<^verbatim>\<open>null\<close>, or an
  object whose \<^verbatim>\<open>results\<close> field is absent or a list of products.
\<close>

datatype json_outcome = JsonRejected | JsonNull | JsonObject "product list option"

datatype prefetch_outcome = PrefetchRejected | PrefetchResponse nat json_outcome

datatype js_error = NetworkError | TypeError | SyntaxError | PrefetchFailed nat

record world =
  prefetchCache :: "product list"
  prefetchPromise :: "promise_state option"
  requests :: "request list"
  timers :: "(nat \<times> nat \<times> timer_cb) list"
  next_timer :: nat
  flights :: "(nat \<times> flight) list"
  next_flight :: nat
  waiters :: nat
  focused :: bool
  hideTimer :: "nat option"
  localTimer :: "nat option"
  the_row :: row

definition res_ok :: "nat \<Rightarrow> bool" where
  "res_ok status = (200 \<le> status \<and> status \<le> 299)"

definition results_or_empty :: "product list option \<Rightarrow> product list" where
  "results_or_empty r = (case r of None \<Rightarrow> [] | Some xs \<Rightarrow> xs)"

subsection \<open>Timers\<close>

text \<open>\<^verbatim>\<open>setTimeout(cb, delay)\<close> returns a fresh handle; \<^verbatim>\<open>clearTimeout(h)\<close> drops the entry.\<close>

definition setTimeout :: "timer_cb \<Rightarrow> nat \<Rightarrow> world \<Rightarrow> nat \<times> world" where
  "setTimeout cb delay w =
     (next_timer w, w\<lparr>timers := timers w @ [(next_timer w, delay, cb)], next_timer := next_timer w + 1\<rparr>)"

definition clearTimeout :: "nat \<Rightarrow> world \<Rightarrow> world" where
  "clearTimeout h w = w\<lparr>timers := filter (\<lambda>t. fst t \<noteq> h) (timers w)\<rparr>"

text \<open>\<^verbatim>\<open>if (timer) { clearTimeout(timer); }\<close>: \<^verbatim>\<open>null\<close> and 0 are falsy.\<close>

definition clear_if_set :: "nat option \<Rightarrow> world \<Rightarrow> world" where
  "clear_if_set t w = (case t of None \<Rightarrow> w | Some h \<Rightarrow> if h = 0 then w else clearTimeout h w)"

subsection \<open>The prefetch\<close>

text \<open>
  \<^verbatim>\<open>loadPrefetch\<close>: the request is sent when the promise is created, before the first
  \<^verbatim>\<open>await\<close>. The value returned is the promise then held in \<^verbatim>\<open>prefetchPromise\<close>.
\<close>

definition loadPrefetch :: "world \<Rightarrow> world" where
  "loadPrefetch w =
     (if prefetchPromise w \<noteq> None then w
      else w\<lparr>prefetchPromise := Some Pending, requests := requests w @ [PrefetchReq PREFETCH_LIMIT]\<rparr>)"

text \<open>The \<^verbatim>\<open>try\<close> block of the prefetch after its request: the new cache, or the error thrown.\<close>

definition prefetch_try :: "prefetch_outcome \<Rightarrow> js_error + product list" where
  "prefetch_try out =
     (case out of
        PrefetchRejected \<Rightarrow> Inl NetworkError
      | PrefetchResponse status body \<Rightarrow>
          if \<not> res_ok status then Inl (PrefetchFailed status)
          else (case body of
                  JsonRejected \<Rightarrow> Inl SyntaxError
                | JsonNull \<Rightarrow> Inr []
                | JsonObject r \<Rightarrow> Inr (results_or_empty r)))"

text \<open>The callback \<^verbatim>\<open>openPrefetch\<close> hands to \<^verbatim>\<open>then\<close>.\<close>

definition prefetch_loaded_cb :: "world \<Rightarrow> world" where
  "prefetch_loaded_cb w =
     (if focused w
      then w\<lparr>the_row := renderSuggestions (take DISPLAY_LIMIT (prefetchCache w))
                            \<lparr>opt_limit = None, opt_emptyMessage = Some ''No products loaded yet.''\<rparr> (the_row w)\<rparr>
      else w)"

text \<open>
  The prefetch settles: the \<^verbatim>\<open>catch\<close> clause turns every error into an empty cache, the
  promise is fulfilled and the waiting callbacks run. Nothing of the state is read or written
  between the two \<^verbatim>\<open>await\<close>s of the prefetch, so they are one step here.
\<close>

definition prefetch_settle :: "prefetch_outcome \<Rightarrow> world \<Rightarrow> world" where
  "prefetch_settle out w =
     (if prefetchPromise w \<noteq> Some Pending then w
      else (let cache = (case prefetch_try out of Inl err \<Rightarrow> [] | Inr results \<Rightarrow> results);
                w1 = w\<lparr>prefetchCache := cache, prefetchPromise := Some Settled\<rparr>
            in ((prefetch_loaded_cb ^^ waiters w1) w1)\<lparr>waiters := 0\<rparr>))"

definition openPrefetch :: "world \<Rightarrow> world" where
  "openPrefetch w =
     (if prefetchCache w \<noteq> []
      then w\<lparr>the_row := renderSuggestions (take DISPLAY_LIMIT (prefetchCache w))
                            \<lparr>opt_limit = None, opt_emptyMessage = Some ''No products loaded yet.''\<rparr> (the_row w)\<rparr>
      else (let w1 = loadPrefetch (w\<lparr>the_row := renderMessage ''Loading warehouse products...'' (the_row w)\<rparr>)
            in if prefetchPromise w1 = Some Settled then prefetch_loaded_cb w1
               else w1\<lparr>waiters := waiters w1 + 1\<rparr>))"

subsection \<open>The remote search\<close>

text \<open>\<^verbatim>\<open>fetchRemoteProducts\<close> up to its first \<^verbatim>\<open>await\<close>.\<close>

definition fetchRemoteProducts :: "string \<Rightarrow> string \<Rightarrow> world \<Rightarrow> world" where
  "fetchRemoteProducts query requestId w =
     (if length query < 2 then w
      else w\<lparr>requests := requests w @ [SearchReq query],
             flights := flights w @ [(next_flight w, AwaitFetch query requestId)],
             next_flight := next_flight w + 1\<rparr>)"

definition stale :: "string \<Rightarrow> world \<Rightarrow> bool" where
  "stale requestId w = (Some requestId \<noteq> remote_request_id (the_row w))"

text \<open>The \<^verbatim>\<open>catch\<close> clause of \<^verbatim>\<open>fetchRemoteProducts\<close>.\<close>

definition search_catch :: "string \<Rightarrow> js_error \<Rightarrow> world \<Rightarrow> world" where
  "search_catch requestId err w =
     (if stale requestId w then w
      else w\<lparr>the_row := renderMessage ''Search failed'' (the_row w)\<rparr>)"

text \<open>
  The call resumes after \<^verbatim>\<open>await fetch(url)\<close>. The result is how the promise of the
  \<^verbatim>\<open>async\<close> function goes on: \<open>Inl\<close> would be an error that leaves the function.
\<close>

definition fetch_try :: "nat \<Rightarrow> string \<Rightarrow> string \<Rightarrow> fetch_outcome \<Rightarrow> world \<Rightarrow> js_error + world" where
  "fetch_try fid query requestId out w =
     (case out of
        FetchRejected \<Rightarrow> Inl NetworkError
      | Response status \<Rightarrow>
          if stale requestId w then Inr w
          else if \<not> res_ok status
          then Inr (w\<lparr>the_row := renderMessage (''Search failed ('' @ show_nat status @ '')'') (the_row w)\<rparr>)
          else Inr (w\<lparr>flights := flights w @ [(fid, AwaitJson query requestId)]\<rparr>))"

definition fetch_resume :: "nat \<Rightarrow> string \<Rightarrow> string \<Rightarrow> fetch_outcome \<Rightarrow> world \<Rightarrow> js_error + world" where
  "fetch_resume fid query requestId out w =
     (case fetch_try fid query requestId out w of
        Inl err \<Rightarrow> Inr (search_catch requestId err w)
      | Inr w' \<Rightarrow> Inr w')"

text \<open>The call resumes after \<^verbatim>\<open>await res.json()\<close>.\<close>

definition json_try :: "string \<Rightarrow> json_outcome \<Rightarrow> world \<Rightarrow> js_error + world" where
  "json_try requestId out w =
     (case out of
        JsonRejected \<Rightarrow> Inl SyntaxError
      | JsonNull \<Rightarrow> Inl TypeError
      | JsonObject r \<Rightarrow>
          (let results = results_or_empty r
           in if stale requestId w then Inr w
              else if results = []
              then Inr (w\<lparr>the_row := renderMessage ''No products found'' (the_row w)\<rparr>)
              else Inr (w\<lparr>the_row := renderSuggestions results
                                         \<lparr>opt_limit = Some DISPLAY_LIMIT, opt_emptyMessage = None\<rparr>
                                         (the_row w)\<rparr>)))"

definition json_resume :: "string \<Rightarrow> json_outcome \<Rightarrow> world \<Rightarrow> js_error + world" where
  "json_resume requestId out w =
     (case json_try requestId out w of
        Inl err \<Rightarrow> Inr (search_catch requestId err w)
      | Inr w' \<Rightarrow> Inr w')"

subsection \<open>The listeners of a row\<close>

definition clear_selection :: "row \<Rightarrow> row" where
  "clear_selection r = r\<lparr>hidden_value := [], qty_max_data := Some [], qty_max_attr := None\<rparr>"

text \<open>\<^verbatim>\<open>handleSearchInput\<close>; the argument is the reading of \<^verbatim>\<open>Date.now()\<close>.\<close>

definition handleSearchInput :: "nat \<Rightarrow> world \<Rightarrow> world" where
  "handleSearchInput now w =
     (let query = trim (search_value (the_row w));
          w1 = w\<lparr>the_row := clear_selection (the_row w)\<rparr>;
          w2 = clear_if_set (localTimer w1) w1;
          matches = filterLocalProducts query (prefetchCache w2);
          w3 = w2\<lparr>the_row := renderSuggestions matches
                                 \<lparr>opt_limit = None,
                                  opt_emptyMessage = Some (if query \<noteq> [] then ''No local matches'' else ''No products yet.'')\<rparr>
                                 (the_row w2)\<rparr>
      in if length query \<ge> 2
         then (let requestId = show_nat now;
                   w4 = w3\<lparr>the_row := (the_row w3)\<lparr>remote_request_id := Some requestId\<rparr>\<rparr>;
                   (h, w5) = setTimeout (RemoteLookup query requestId) 220 w4
               in w5\<lparr>localTimer := Some h\<rparr>)
         else w3)"

definition on_focus :: "world \<Rightarrow> world" where
  "on_focus w = openPrefetch (clear_if_set (hideTimer w) (w\<lparr>focused := True\<rparr>))"

definition on_blur :: "world \<Rightarrow> world" where
  "on_blur w = (let (h, w1) = setTimeout HideBox 150 (w\<lparr>focused := False\<rparr>) in w1\<lparr>hideTimer := Some h\<rparr>)"

definition on_qty_input :: "string \<Rightarrow> world \<Rightarrow> world" where
  "on_qty_input text w = w\<lparr>the_row := updateAvailabilityMessage ((the_row w)\<lparr>qty_value := text\<rparr>)\<rparr>"

text \<open>A click on the button of a product: only a product shown in the open box can be clicked.\<close>

definition on_click :: "product \<Rightarrow> world \<Rightarrow> world" where
  "on_click p w =
     (case box (the_row w) of
        Suggestions ps \<Rightarrow>
          if p \<in> set ps \<and> \<not> box_hidden (the_row w)
          then w\<lparr>the_row := (selectProduct p (the_row w))\<lparr>box_hidden := True\<rparr>\<rparr>
          else w
      | _ \<Rightarrow> w)"

definition run_timer :: "timer_cb \<Rightarrow> world \<Rightarrow> world" where
  "run_timer cb w =
     (case cb of
        RemoteLookup query requestId \<Rightarrow> fetchRemoteProducts query requestId w
      | HideBox \<Rightarrow> w\<lparr>the_row := (the_row w)\<lparr>box_hidden := True\<rparr>\<rparr>)"

subsection \<open>Events\<close>

text \<open>
  What can happen to the picker: the user focuses or leaves the search input, edits its text
  (with the clock reading at that moment), edits the quantity, clicks a suggestion; a pending
  timer fires; a suspended search call gets its response or its body; the prefetch settles;
  some code calls \<^verbatim>\<open>loadPrefetch\<close>. An event that names a timer or a call that is not
  pending changes nothing. Timers fire in any order and at any time after they are set: the
  delays are recorded, not enforced. Removing a row and the defaults \<^verbatim>\<open>createRow\<close>
  can fill a new row with are left out.
\<close>

datatype event =
    Focus
  | Blur
  | Input string nat
  | QtyInput string
  | Click product
  | TimerFire nat
  | FetchSettle nat fetch_outcome
  | JsonSettle nat json_outcome
  | PrefetchSettle prefetch_outcome
  | LoadCall

definition drop_flight :: "nat \<Rightarrow> world \<Rightarrow> world" where
  "drop_flight fid w = w\<lparr>flights := filter (\<lambda>f. fst f \<noteq> fid) (flights w)\<rparr>"

definition settled :: "world \<Rightarrow> js_error + world \<Rightarrow> world" where
  "settled w r = (case r of Inl err \<Rightarrow> w | Inr w' \<Rightarrow> w')"

fun step :: "event \<Rightarrow> world \<Rightarrow> world" where
  "step Focus w = on_focus w"
| "step Blur w = on_blur w"
| "step (Input text now) w = handleSearchInput now (w\<lparr>the_row := (the_row w)\<lparr>search_value := text\<rparr>\<rparr>)"
| "step (QtyInput text) w = on_qty_input text w"
| "step (Click p) w = on_click p w"
| "step (TimerFire h) w =
     (case map_of (timers w) h of
        None \<Rightarrow> w
      | Some (delay, cb) \<Rightarrow> run_timer cb (clearTimeout h w))"
| "step (FetchSettle fid out) w =
     (case map_of (flights w) fid of
        Some (AwaitFetch query requestId) \<Rightarrow>
          settled w (fetch_resume fid query requestId out (drop_flight fid w))
      | _ \<Rightarrow> w)"
| "step (JsonSettle fid out) w =
     (case map_of (flights w) fid of
        Some (AwaitJson query requestId) \<Rightarrow> settled w (json_resume requestId out (drop_flight fid w))
      | _ \<Rightarrow> w)"
| "step (PrefetchSettle out) w = prefetch_settle out w"
| "step LoadCall w = loadPrefetch w"

fun run :: "event list \<Rightarrow> world \<Rightarrow> world" where
  "run [] w = w"
| "run (e # es) w = run es (step e w)"

text \<open>
  The module before its last statement, with one blank row attached, and after it: the
  module ends with a call of \<^verbatim>\<open>loadPrefetch\<close>.
\<close>

definition fresh_module :: world where
  "fresh_module =
     \<lparr>prefetchCache = [], prefetchPromise = None, requests = [], timers = [], next_timer = 1,
      flights = [], next_flight = 0, waiters = 0, focused = False, hideTimer = None,
      localTimer = None, the_row = blank_row\<rparr>"

definition init_world :: world where
  "init_world = loadPrefetch fresh_module"

section \<open>Reference predicates and sample data\<close>

text \<open>
  The filter as its contract words it: a product matches \<open>x\<close> when its name, its SKU or its
  tag contains \<open>x\<close>, letter case ignored. An absent field is the empty string.
\<close>

definition contains_ci :: "string \<Rightarrow> string \<Rightarrow> bool" where
  "contains_ci field x = str_includes (toLowerCase field) (toLowerCase x)"

definition field_match :: "string \<Rightarrow> product \<Rightarrow> bool" where
  "field_match x p =
     (contains_ci (or_str (p_name p) []) x \<or> contains_ci (or_str (p_sku p) []) x
      \<or> contains_ci (or_str (p_tag p) []) x)"

definition blue_pen :: product where
  "blue_pen = \<lparr>p_id = Some ''p1'', p_name = Some ''Blue Pen'', p_sku = Some ''BP1'', p_tag = None,
               p_qty_available = Some 5, p_image_url = None\<rparr>"

definition red_pen :: product where
  "red_pen = \<lparr>p_id = Some ''p2'', p_name = Some ''Red Pen'', p_sku = None, p_tag = None,
              p_qty_available = None, p_image_url = None\<rparr>"

definition blue_marker :: product where
  "blue_marker = \<lparr>p_id = Some ''m1'', p_name = Some ''Blue Marker'', p_sku = None, p_tag = None,
                  p_qty_available = None, p_image_url = None\<rparr>"

text \<open>
  What \<^verbatim>\<open>gatherItems\<close> is to make of one row, case by case: an unselected row is an error
  when it has query text or a positive quantity and is skipped otherwise; a selected row is an
  error when its quantity is not at least 1 or exceeds its bound, and an item otherwise. The
  test \<open>bounded\<close> says which stored bounds count as a bound.
\<close>

datatype row_outcome = Skipped | RowError string | RowItem item

definition row_selected :: "row \<Rightarrow> bool" where
  "row_selected r = (trim (hidden_value r) \<noteq> [])"

definition row_item :: "row \<Rightarrow> item" where
  "row_item r =
     \<lparr>item_product_id = trim (hidden_value r), item_qty = qty_number r,
      item_expected_date = (if expected_value r = [] then None else Some (expected_value r)),
      item_notes = trim (notes_value r)\<rparr>"

definition classify :: "(int \<Rightarrow> bool) \<Rightarrow> nat \<Rightarrow> row \<Rightarrow> row_outcome" where
  "classify bounded index r =
     (if row_selected r
      then (if qty_number r < 1
            then RowError (''Row '' @ show_nat (index + 1) @ '': quantity must be at least 1.'')
            else if bounded (max_bound r) \<and> max_bound r < qty_number r
            then RowError (''Row '' @ show_nat (index + 1) @ '': requested quantity (''
                           @ show_int (qty_number r) @ '') exceeds available stock (''
                           @ show_int (max_bound r) @ '').'')
            else RowItem (row_item r))
      else (if trim (search_value r) = [] \<and> qty_number r < 1 then Skipped
            else RowError (''Row '' @ show_nat (index + 1) @ '': select a warehouse product.'')))"

fun outcomes :: "(int \<Rightarrow> bool) \<Rightarrow> nat \<Rightarrow> row list \<Rightarrow> row_outcome list" where
  "outcomes bounded index [] = []"
| "outcomes bounded index (r # rs) = classify bounded index r # outcomes bounded (index + 1) rs"

fun items_of :: "row_outcome list \<Rightarrow> item list" where
  "items_of [] = []"
| "items_of (RowItem it # os) = it # items_of os"
| "items_of (_ # os) = items_of os"

fun errors_of :: "row_outcome list \<Rightarrow> string list" where
  "errors_of [] = []"
| "errors_of (RowError e # os) = e # errors_of os"
| "errors_of (_ # os) = errors_of os"

text \<open>A product whose stock the server reports as negative, and the row that selects it.\<close>

definition oversold :: product where
  "oversold = \<lparr>p_id = Some ''p9'', p_name = Some ''Ink'', p_sku = None, p_tag = None,
               p_qty_available = Some (- 3), p_image_url = None\<rparr>"

definition oversold_row :: row where
  "oversold_row = selectProduct oversold blank_row"

definition sample_rows :: "row list" where
  "sample_rows =
     [(selectProduct blue_pen blank_row)\<lparr>qty_value := ''6''\<rparr>,
      blank_row\<lparr>qty_value := []\<rparr>,
      (selectProduct blue_pen blank_row)\<lparr>qty_value := ''3'', notes_value := '' hi ''\<rparr>,
      blank_row]"

text \<open>The pending debounce timers, the prefetch requests, and the token read as a number.\<close>

definition is_lookup :: "nat \<times> nat \<times> timer_cb \<Rightarrow> bool" where
  "is_lookup t = (case snd (snd t) of RemoteLookup query requestId \<Rightarrow> True | HideBox \<Rightarrow> False)"

definition lookups :: "world \<Rightarrow> (nat \<times> nat \<times> timer_cb) list" where
  "lookups w = filter is_lookup (timers w)"

definition is_prefetch :: "request \<Rightarrow> bool" where
  "is_prefetch rq = (case rq of PrefetchReq limit \<Rightarrow> True | SearchReq query \<Rightarrow> False)"

definition token_number :: "world \<Rightarrow> int option" where
  "token_number w = (case remote_request_id (the_row w) of None \<Rightarrow> None | Some t \<Rightarrow> parseInt t)"

text \<open>
  What holds of the timers in every state the picker reaches: handles are positive and below
  the next one, every pending debounce timer is the one \<^verbatim>\<open>localTimer\<close> names, and there
  is at most one.
\<close>

definition timers_ok :: "world \<Rightarrow> bool" where
  "timers_ok w =
     (0 < next_timer w
      \<and> list_all (\<lambda>t. 0 < fst t \<and> fst t < next_timer w) (timers w)
      \<and> list_all (\<lambda>t. localTimer w = Some (fst t)) (lookups w)
      \<and> length (lookups w) \<le> 1)"

text \<open>The state after a product was picked, and the events of the late response.\<close>

definition picked_world :: world where
  "picked_world =
     run [PrefetchSettle (PrefetchResponse 200 (JsonObject (Some [blue_pen, red_pen]))), Focus,
          Click blue_pen] init_world"

definition late_response :: "event list" where
  "late_response =
     [Input ''blue'' 1000, TimerFire 1, Input ''b'' 1300, FetchSettle 0 (Response 200),
      JsonSettle 0 (JsonObject (Some [blue_marker]))]"

text \<open>
  What holds of the prefetch in every state the picker reaches: one request has been sent once
  the promise exists and none before, and the cache is empty until the promise is settled.
  And of the search requests: each carries a query of at least two characters.
\<close>

definition prefetch_ok :: "world \<Rightarrow> bool" where
  "prefetch_ok w =
     (filter is_prefetch (requests w) = (if prefetchPromise w = None then [] else [PrefetchReq PREFETCH_LIMIT])
      \<and> (prefetchPromise w = Some Settled \<or> prefetchCache w = []))"

definition long_query :: "request \<Rightarrow> bool" where
  "long_query rq = (case rq of PrefetchReq limit \<Rightarrow> True | SearchReq query \<Rightarrow> 2 \<le> length query)"

text \<open>The state in which the search call for \<open>blue\<close> waits for its response.\<close>

definition awaiting_world :: world where
  "awaiting_world = run [Input ''blue'' 1000, TimerFire 1] init_world"

section \<open>Substring search\<close>

lemma str_includes_sublist: "str_includes hay needle = sublist needle hay"
  by (induction hay) (auto simp: sublist_Cons_right)

lemma sublist_across_separator:
  "c \<notin> set needle \<Longrightarrow> sublist needle (a @ c # b) \<longleftrightarrow> sublist needle a \<or> sublist needle b"
  by (auto simp: sublist_append sublist_Cons_right prefix_Cons)

lemma lower_char_space: "lower_char c = CHR '' '' \<Longrightarrow> c = CHR '' ''"
  by (auto simp: lower_char_def split: option.splits if_splits)

lemma toLowerCase_no_space: "CHR '' '' \<notin> set q \<Longrightarrow> CHR '' '' \<notin> set (toLowerCase q)"
  using lower_char_space by (fastforce simp: toLowerCase_def)

lemma combined_field_match:
  assumes "CHR '' '' \<notin> set query"
  shows "str_includes (combined p) (toLowerCase query) = field_match query p"
proof -
  have "CHR '' '' \<notin> set (toLowerCase query)"
    using assms by (rule toLowerCase_no_space)
  then show ?thesis
    by (simp add: combined_def field_match_def contains_ci_def str_includes_sublist
        sublist_across_separator)
qed

section \<open>The local filter\<close>

lemma filter_loop_take:
  "length matches < DISPLAY_LIMIT \<Longrightarrow>
   filter_loop needle ps matches =
     take DISPLAY_LIMIT (matches @ filter (\<lambda>p. str_includes (combined p) needle) ps)"
  by (induction ps arbitrary: matches) (auto simp: DISPLAY_LIMIT_def take_Cons')

lemma filterLocalProducts_combined:
  "query \<noteq> [] \<Longrightarrow>
   filterLocalProducts query cache =
     take DISPLAY_LIMIT (filter (\<lambda>p. str_includes (combined p) (toLowerCase query)) cache)"
  using filter_loop_take [of "[]" "toLowerCase query" cache]
  by (simp add: filterLocalProducts_def DISPLAY_LIMIT_def)

lemma renderSuggestions_fields [simp]:
  "hidden_value (renderSuggestions xs opts r) = hidden_value r"
  "qty_max_data (renderSuggestions xs opts r) = qty_max_data r"
  "qty_max_attr (renderSuggestions xs opts r) = qty_max_attr r"
  "remote_request_id (renderSuggestions xs opts r) = remote_request_id r"
  "search_value (renderSuggestions xs opts r) = search_value r"
  "box_hidden (renderSuggestions xs opts r) = False"
  by (simp_all add: renderSuggestions_def renderMessage_def Let_def)

lemma clear_if_set_fields [simp]:
  "prefetchCache (clear_if_set t w) = prefetchCache w"
  "prefetchPromise (clear_if_set t w) = prefetchPromise w"
  "requests (clear_if_set t w) = requests w"
  "flights (clear_if_set t w) = flights w"
  "next_flight (clear_if_set t w) = next_flight w"
  "next_timer (clear_if_set t w) = next_timer w"
  "the_row (clear_if_set t w) = the_row w"
  "localTimer (clear_if_set t w) = localTimer w"
  "hideTimer (clear_if_set t w) = hideTimer w"
  "waiters (clear_if_set t w) = waiters w"
  "focused (clear_if_set t w) = focused w"
  by (simp_all add: clear_if_set_def clearTimeout_def split: option.splits)

lemma handleSearchInput_cache [simp]:
  "prefetchCache (handleSearchInput now w) = prefetchCache w"
  by (simp add: handleSearchInput_def Let_def setTimeout_def)

text \<open>
  Claim C2, as amended. With an empty query the filter returns the first 30 entries of the
  cache, in order. With a non-empty query it returns, in cache order and capped at 30, the
  entries whose lower-cased name, SKU and tag, joined by single spaces, contain the lower-cased
  query; when the query has no space in it, these are the entries whose name, SKU or tag
  contains the query, letter case ignored. Filtering leaves the cache as it was: the only
  caller, the text-change handler, ends with the cache it started with.
\<close>

theorem filterLocalProducts_contract:
  "filterLocalProducts [] cache = take DISPLAY_LIMIT cache
   \<and> (query \<noteq> [] \<longrightarrow>
        filterLocalProducts query cache =
          take DISPLAY_LIMIT (filter (\<lambda>p. str_includes (combined p) (toLowerCase query)) cache))
   \<and> (query \<noteq> [] \<and> CHR '' '' \<notin> set query \<longrightarrow>
        filterLocalProducts query cache = take DISPLAY_LIMIT (filter (field_match query) cache))
   \<and> prefetchCache (handleSearchInput now w) = prefetchCache w"
proof -
  have empty: "filterLocalProducts [] cache = take DISPLAY_LIMIT cache"
    by (simp add: filterLocalProducts_def)
  have fields: "filter (\<lambda>p. str_includes (combined p) (toLowerCase query)) cache
                  = filter (field_match query) cache"
    if "CHR '' '' \<notin> set query"
    using that by (simp add: combined_field_match)
  show ?thesis
    using empty fields by (simp add: filterLocalProducts_combined)
qed

theorem filterLocalProducts_contract_witness:
  "''blu'' \<noteq> [] \<and> CHR '' '' \<notin> set ''blu''
   \<and> filterLocalProducts ''blu'' [blue_pen, red_pen]
       = take DISPLAY_LIMIT (filter (field_match ''blu'') [blue_pen, red_pen])
   \<and> filterLocalProducts ''blu'' [blue_pen, red_pen] = [blue_pen]"
proof -
  have query: "''blu'' \<noteq> [] \<and> CHR '' '' \<notin> set ''blu''"
    by simp
  have result: "filterLocalProducts ''blu'' [blue_pen, red_pen] = [blue_pen]"
    by code_simp
  from query filterLocalProducts_contract [of "[blue_pen, red_pen]" "''blu''"]
  have "filterLocalProducts ''blu'' [blue_pen, red_pen]
          = take DISPLAY_LIMIT (filter (field_match ''blu'') [blue_pen, red_pen])"
    by blast
  with query result show ?thesis
    by blast
qed

text \<open>
  Claim C2 as first worded fails for a query with a space in it: \<open>n b\<close> is in neither
  the name \<open>Blue Pen\<close> nor the SKU \<open>BP1\<close>, but it spans the two in the joined string
  \<open>blue pen bp1\<close>, and the product is returned.
\<close>

theorem filterLocalProducts_spans_fields:
  "filterLocalProducts ''n b'' [blue_pen, red_pen] = [blue_pen] \<and> \<not> field_match ''n b'' blue_pen"
  by code_simp

section \<open>Decimal numbers\<close>

lemma digit_chars_nth:
  assumes "k < 10"
  shows "is_digit (digit_chars ! k)" and "digit_val (digit_chars ! k) = k"
proof -
  from assms
  have k: "k = 0 \<or> k = 1 \<or> k = 2 \<or> k = 3 \<or> k = 4 \<or> k = 5 \<or> k = 6 \<or> k = 7 \<or> k = 8 \<or> k = 9"
    by arith
  from k show "is_digit (digit_chars ! k)"
    by (auto simp: is_digit_def digit_chars_def)
  from k show "digit_val (digit_chars ! k) = k"
    by (auto simp: digit_val_def digit_chars_def)
qed

lemma is_digit_plain: "is_digit c \<Longrightarrow> \<not> is_ws c \<and> c \<noteq> CHR ''-'' \<and> c \<noteq> CHR ''+''"
  by (auto simp: is_digit_def is_ws_def digit_chars_def)

lemma show_nat_digits: "show_nat n \<noteq> [] \<and> (\<forall>c \<in> set (show_nat n). is_digit c)"
proof (induction n rule: show_nat.induct)
  case (1 n)
  show ?case
  proof (cases "n < 10")
    case True
    then show ?thesis
      by (simp add: show_nat.simps [of n] digit_chars_nth)
  next
    case False
    with 1 show ?thesis
      by (simp add: show_nat.simps [of n] digit_chars_nth)
  qed
qed

lemma digits_val_snoc: "digits_val (ds @ [c]) = 10 * digits_val ds + digit_val c"
  by (simp add: digits_val_def)

lemma digits_val_show_nat: "digits_val (show_nat n) = n"
proof (induction n rule: show_nat.induct)
  case (1 n)
  show ?case
  proof (cases "n < 10")
    case True
    then show ?thesis
      by (simp add: show_nat.simps [of n] digits_val_def digit_chars_nth)
  next
    case False
    with 1 have "digits_val (show_nat (n div 10)) = n div 10"
      by simp
    with False show ?thesis
      by (simp add: show_nat.simps [of n] digits_val_snoc digit_chars_nth)
  qed
qed

lemma parseInt_digits:
  assumes "ds \<noteq> []" and "\<forall>c \<in> set ds. is_digit c"
  shows "parseInt ds = Some (int (digits_val ds))"
    and "parseInt (CHR ''-'' # ds) = Some (- int (digits_val ds))"
proof -
  from assms obtain c cs where ds: "ds = c # cs" and c: "is_digit c"
    by (cases ds) auto
  have tw: "takeWhile is_digit ds = ds"
    using assms(2) by (simp add: takeWhile_eq_all_conv)
  have dw: "dropWhile is_ws ds = ds"
    using is_digit_plain [OF c] by (simp add: ds)
  have sign: "(case ds of [] \<Rightarrow> [] | c # cs \<Rightarrow> if c = CHR ''-'' \<or> c = CHR ''+'' then cs else ds) = ds"
    using is_digit_plain [OF c] by (simp add: ds)
  have neg: "(case ds of [] \<Rightarrow> False | c # _ \<Rightarrow> c = CHR ''-'') = False"
    using is_digit_plain [OF c] by (simp add: ds)
  show "parseInt ds = Some (int (digits_val ds))"
    unfolding parseInt_def Let_def dw sign neg tw using assms(1) by simp
  have minus: "dropWhile is_ws (CHR ''-'' # ds) = CHR ''-'' # ds"
    by (simp add: is_ws_def)
  show "parseInt (CHR ''-'' # ds) = Some (- int (digits_val ds))"
    unfolding parseInt_def Let_def minus using assms(1) by (simp add: tw)
qed

lemma parseInt_show_int: "parseInt (show_int i) = Some i"
  using parseInt_digits [of "show_nat (nat i)"] parseInt_digits [of "show_nat (nat (- i))"]
    show_nat_digits
  by (simp add: show_int_def digits_val_show_nat)

lemma show_nat_inj: "show_nat m = show_nat n \<Longrightarrow> m = n"
  by (metis digits_val_show_nat)

lemma show_int_nonempty: "show_int i \<noteq> []"
  using show_nat_digits by (simp add: show_int_def)

lemma parseInt_zero: "parseInt ''0'' = Some 0"
  by code_simp

section \<open>Selecting a product\<close>

lemma selectProduct_max_data:
  "qty_max_data (selectProduct p r) =
     (case p_qty_available p of None \<Rightarrow> Some [] | Some n \<Rightarrow> if n = 0 then Some [] else Some (show_int n))"
  and selectProduct_max_attr:
  "qty_max_attr (selectProduct p r) =
     (case p_qty_available p of None \<Rightarrow> None | Some n \<Rightarrow> if n = 0 then None else Some (show_int n))"
  and selectProduct_tag:
  "product_tag (selectProduct p r) = Some (or_str (p_tag p) ''Warehouse'')"
  by (simp_all add: selectProduct_def Let_def split: option.splits)

lemma max_bound_selectProduct:
  "max_bound (selectProduct p r) = (case p_qty_available p of None \<Rightarrow> 0 | Some n \<Rightarrow> n)"
  by (simp add: max_bound_def selectProduct_max_data or_str_def parseInt_or0_def
      parseInt_show_int parseInt_zero show_int_nonempty split: option.splits)

lemma max_bound_qty_value [simp]: "max_bound (r\<lparr>qty_value := v\<rparr>) = max_bound r"
  by (simp add: max_bound_def)

lemma avail_hidden_update:
  "avail_hidden (updateAvailabilityMessage r) = (\<not> (max_bound r \<noteq> 0 \<and> max_bound r < qty_number r))"
  by (simp add: updateAvailabilityMessage_def Let_def)

lemma qty_number_show_int: "qty_number (r\<lparr>qty_value := show_int n\<rparr>) = n"
  by (simp add: qty_number_def parseInt_or0_def parseInt_show_int show_int_nonempty)

text \<open>
  Claim C5. After a product is selected, the bound the picker reads back from the row is the
  product's available quantity, and 0 when that is absent. A bound of 0 is no bound: the
  \<^verbatim>\<open>max\<close> attribute is removed and no quantity brings the over-limit message up. A
  non-zero bound brings the message up exactly for the quantities above it. For an available
  quantity of 5 the bound is 5, the quantity 6 shows the message and the quantity 5 does not.
\<close>

theorem selectProduct_quantity_bound:
  "max_bound (selectProduct p r) = (case p_qty_available p of None \<Rightarrow> 0 | Some n \<Rightarrow> n)
   \<and> (max_bound (selectProduct p r) = 0 \<longrightarrow>
        qty_max_attr (selectProduct p r) = None
        \<and> avail_hidden (the_row (on_qty_input v (w\<lparr>the_row := selectProduct p r\<rparr>))))
   \<and> (max_bound (selectProduct p r) \<noteq> 0 \<longrightarrow>
        avail_hidden (the_row (on_qty_input (show_int n) (w\<lparr>the_row := selectProduct p r\<rparr>)))
          = (n \<le> max_bound (selectProduct p r)))
   \<and> (p_qty_available p = Some 5 \<longrightarrow>
        max_bound (selectProduct p r) = 5
        \<and> qty_max_attr (selectProduct p r) = Some ''5''
        \<and> \<not> avail_hidden (the_row (on_qty_input ''6'' (w\<lparr>the_row := selectProduct p r\<rparr>)))
        \<and> avail_text (the_row (on_qty_input ''6'' (w\<lparr>the_row := selectProduct p r\<rparr>)))
            = ''Only 5 units available from '' @ or_str (p_tag p) ''Warehouse'' @ ''.''
        \<and> avail_hidden (the_row (on_qty_input ''5'' (w\<lparr>the_row := selectProduct p r\<rparr>))))"
proof -
  let ?r = "selectProduct p r"
  have bound: "max_bound ?r = (case p_qty_available p of None \<Rightarrow> 0 | Some n \<Rightarrow> n)"
    by (rule max_bound_selectProduct)
  have unbounded: "qty_max_attr ?r = None \<and> avail_hidden (the_row (on_qty_input v (w\<lparr>the_row := ?r\<rparr>)))"
    if "max_bound ?r = 0"
    using that bound
    by (auto simp: on_qty_input_def avail_hidden_update selectProduct_max_attr split: option.splits)
  have bounded: "avail_hidden (the_row (on_qty_input (show_int n) (w\<lparr>the_row := ?r\<rparr>))) = (n \<le> max_bound ?r)"
    if "max_bound ?r \<noteq> 0"
    using that by (auto simp: on_qty_input_def avail_hidden_update qty_number_show_int)
  have six: "show_int 6 = ''6''" and five: "show_int 5 = ''5''"
    by code_simp+
  have five_units: "max_bound ?r = 5 \<and> qty_max_attr ?r = Some ''5''
      \<and> \<not> avail_hidden (the_row (on_qty_input ''6'' (w\<lparr>the_row := ?r\<rparr>)))
      \<and> avail_text (the_row (on_qty_input ''6'' (w\<lparr>the_row := ?r\<rparr>)))
          = ''Only 5 units available from '' @ or_str (p_tag p) ''Warehouse'' @ ''.''
      \<and> avail_hidden (the_row (on_qty_input ''5'' (w\<lparr>the_row := ?r\<rparr>)))"
    if avail: "p_qty_available p = Some 5"
  proof -
    have b5: "max_bound ?r = 5"
      using bound avail by simp
    have q6: "qty_number (?r\<lparr>qty_value := ''6''\<rparr>) = 6" and q5: "qty_number (?r\<lparr>qty_value := ''5''\<rparr>) = 5"
      using qty_number_show_int [where r = ?r and n = 6] qty_number_show_int [where r = ?r and n = 5] by (simp_all add: six five)
    show ?thesis
      using b5 q6 q5 avail
      by (simp add: on_qty_input_def updateAvailabilityMessage_def Let_def selectProduct_max_attr
          selectProduct_tag five)
        (simp add: or_str_def split: option.splits)
  qed
  from bound unbounded bounded five_units show ?thesis
    by blast
qed

theorem selectProduct_quantity_bound_witness:
  "p_qty_available blue_pen = Some 5
   \<and> max_bound (selectProduct blue_pen blank_row) = 5
   \<and> \<not> avail_hidden (the_row (on_qty_input ''6'' (init_world\<lparr>the_row := selectProduct blue_pen blank_row\<rparr>)))
   \<and> avail_hidden (the_row (on_qty_input ''5'' (init_world\<lparr>the_row := selectProduct blue_pen blank_row\<rparr>)))
   \<and> max_bound (selectProduct red_pen blank_row) = 0
   \<and> avail_hidden (the_row (on_qty_input ''6'' (init_world\<lparr>the_row := selectProduct red_pen blank_row\<rparr>)))"
proof -
  have avail: "p_qty_available blue_pen = Some 5" and none: "p_qty_available red_pen = None"
    by (simp_all add: blue_pen_def red_pen_def)
  from avail selectProduct_quantity_bound [where p = blue_pen and r = blank_row and w = init_world]
  have blue: "max_bound (selectProduct blue_pen blank_row) = 5
      \<and> \<not> avail_hidden (the_row (on_qty_input ''6'' (init_world\<lparr>the_row := selectProduct blue_pen blank_row\<rparr>)))
      \<and> avail_hidden (the_row (on_qty_input ''5'' (init_world\<lparr>the_row := selectProduct blue_pen blank_row\<rparr>)))"
    by blast
  from none selectProduct_quantity_bound [where p = red_pen and r = blank_row and w = init_world and v = "''6''"]
  have red: "max_bound (selectProduct red_pen blank_row) = 0
      \<and> avail_hidden (the_row (on_qty_input ''6'' (init_world\<lparr>the_row := selectProduct red_pen blank_row\<rparr>)))"
    by simp
  from avail blue red show ?thesis
    by blast
qed

section \<open>Gathering the order items\<close>

lemma gather_row_classify:
  "gather_row index r acc =
     (fst acc @ items_of [classify (\<lambda>m. m \<noteq> 0) index r], snd acc @ errors_of [classify (\<lambda>m. m \<noteq> 0) index r])"
  by (cases acc)
    (auto simp: gather_row_def classify_def row_selected_def row_item_def Let_def)

lemma items_of_Cons: "items_of (x # xs) = items_of [x] @ items_of xs"
  by (cases x) simp_all

lemma errors_of_Cons: "errors_of (x # xs) = errors_of [x] @ errors_of xs"
  by (cases x) simp_all

lemma gather_rows_outcomes:
  "gather_rows index rows acc =
     (fst acc @ items_of (outcomes (\<lambda>m. m \<noteq> 0) index rows),
      snd acc @ errors_of (outcomes (\<lambda>m. m \<noteq> 0) index rows))"
proof (induction rows arbitrary: index acc)
  case Nil
  then show ?case by simp
next
  case (Cons r rows)
  show ?case
    using items_of_Cons [of "classify (\<lambda>m. m \<noteq> 0) index r" "outcomes (\<lambda>m. m \<noteq> 0) (index + 1) rows"]
      errors_of_Cons [of "classify (\<lambda>m. m \<noteq> 0) index r" "outcomes (\<lambda>m. m \<noteq> 0) (index + 1) rows"]
    by (simp add: Cons.IH gather_row_classify)
qed

lemma outcomes_length: "length (outcomes bounded index rows) = length rows"
  by (induction rows arbitrary: index) simp_all

lemma outcomes_nth:
  "i < length rows \<Longrightarrow> outcomes bounded index rows ! i = classify bounded (index + i) (rows ! i)"
proof (induction rows arbitrary: index i)
  case Nil
  then show ?case by simp
next
  case (Cons r rows)
  then show ?case
    by (cases i) simp_all
qed

text \<open>
  Claim C10, as amended. Row by row and in document order, \<^verbatim>\<open>gatherItems\<close> makes of the
  row at position \<open>i\<close> what \<open>classify\<close> says, with every non-zero stored bound counting as a
  bound: the items returned are the items of the rows classified as items, the errors are the
  messages of the rows classified as errors, and a skipped row adds to neither.
\<close>

theorem gatherItems_by_row:
  "gatherItems rows =
     (items_of (outcomes (\<lambda>m. m \<noteq> 0) 0 rows), errors_of (outcomes (\<lambda>m. m \<noteq> 0) 0 rows))
   \<and> length (outcomes (\<lambda>m. m \<noteq> 0) 0 rows) = length rows
   \<and> (\<forall>i < length rows. outcomes (\<lambda>m. m \<noteq> 0) 0 rows ! i = classify (\<lambda>m. m \<noteq> 0) i (rows ! i))"
  by (simp add: gatherItems_def gather_rows_outcomes outcomes_length outcomes_nth)

theorem gatherItems_by_row_witness:
  "gatherItems sample_rows =
     (items_of (outcomes (\<lambda>m. m \<noteq> 0) 0 sample_rows), errors_of (outcomes (\<lambda>m. m \<noteq> 0) 0 sample_rows))
   \<and> 2 < length sample_rows
   \<and> outcomes (\<lambda>m. m \<noteq> 0) 0 sample_rows ! 2 = classify (\<lambda>m. m \<noteq> 0) 2 (sample_rows ! 2)
   \<and> gatherItems sample_rows =
       ([\<lparr>item_product_id = ''p1'', item_qty = 3, item_expected_date = None, item_notes = ''hi''\<rparr>],
        [''Row 1: requested quantity (6) exceeds available stock (5).'',
         ''Row 4: select a warehouse product.''])"
proof -
  have len: "2 < length sample_rows"
    by (simp add: sample_rows_def)
  have result: "gatherItems sample_rows =
       ([\<lparr>item_product_id = ''p1'', item_qty = 3, item_expected_date = None, item_notes = ''hi''\<rparr>],
        [''Row 1: requested quantity (6) exceeds available stock (5).'',
         ''Row 4: select a warehouse product.''])"
    by code_simp
  from len result gatherItems_by_row [of sample_rows] show ?thesis
    by blast
qed

text \<open>
  Claim C10 as first worded takes only a positive stored bound for a bound. A row that selects
  a product with a stock of -3 and asks for 1 would then give an item; the code gives an error
  and no item.
\<close>

theorem gatherItems_negative_bound:
  "gatherItems [oversold_row] = ([], [''Row 1: requested quantity (1) exceeds available stock (-3).''])
   \<and> outcomes (\<lambda>m. 0 < m) 0 [oversold_row] = [RowItem (row_item oversold_row)]"
  by code_simp

section \<open>Editing the query text\<close>

lemma max_bound_cleared: "qty_max_data r = Some [] \<Longrightarrow> max_bound r = 0"
  by (simp add: max_bound_def or_str_def parseInt_or0_def parseInt_zero)

lemma the_row_handleSearchInput:
  "the_row (handleSearchInput now w) =
     (let query = trim (search_value (the_row w));
          shown = renderSuggestions (filterLocalProducts query (prefetchCache w))
                    \<lparr>opt_limit = None,
                     opt_emptyMessage = Some (if query \<noteq> [] then ''No local matches'' else ''No products yet.'')\<rparr>
                    (clear_selection (the_row w))
      in if 2 \<le> length query then shown\<lparr>remote_request_id := Some (show_nat now)\<rparr> else shown)"
  by (simp add: handleSearchInput_def Let_def setTimeout_def)

text \<open>
  Claim C7. Whatever the state and the new text, after a text change the stored product
  identifier is empty, the stored bound is the empty string (read back as 0, no bound) and the
  \<^verbatim>\<open>max\<close> attribute is gone. The row the handler leaves is the local matches rendered
  into the row that was already cleared, so the clearing comes before filtering and rendering.
\<close>

theorem text_change_clears_selection:
  "hidden_value (the_row (step (Input text now) w)) = []
   \<and> qty_max_data (the_row (step (Input text now) w)) = Some []
   \<and> qty_max_attr (the_row (step (Input text now) w)) = None
   \<and> max_bound (the_row (step (Input text now) w)) = 0
   \<and> the_row (step (Input text now) w) =
       (let shown = renderSuggestions (filterLocalProducts (trim text) (prefetchCache w))
                      \<lparr>opt_limit = None,
                       opt_emptyMessage = Some (if trim text \<noteq> [] then ''No local matches'' else ''No products yet.'')\<rparr>
                      (clear_selection ((the_row w)\<lparr>search_value := text\<rparr>))
        in if 2 \<le> length (trim text) then shown\<lparr>remote_request_id := Some (show_nat now)\<rparr> else shown)"
proof -
  let ?w = "step (Input text now) w"
  have row: "the_row ?w =
       (let shown = renderSuggestions (filterLocalProducts (trim text) (prefetchCache w))
                      \<lparr>opt_limit = None,
                       opt_emptyMessage = Some (if trim text \<noteq> [] then ''No local matches'' else ''No products yet.'')\<rparr>
                      (clear_selection ((the_row w)\<lparr>search_value := text\<rparr>))
        in if 2 \<le> length (trim text) then shown\<lparr>remote_request_id := Some (show_nat now)\<rparr> else shown)"
    by (simp add: the_row_handleSearchInput Let_def)
  have hidden: "hidden_value (the_row ?w) = []"
    and data: "qty_max_data (the_row ?w) = Some []"
    and attr: "qty_max_attr (the_row ?w) = None"
    unfolding row by (simp_all add: Let_def clear_selection_def)
  from data have "max_bound (the_row ?w) = 0"
    by (rule max_bound_cleared)
  with row hidden data attr show ?thesis
    by simp
qed

theorem text_change_clears_selection_witness:
  "hidden_value (the_row picked_world) = ''p1''
   \<and> max_bound (the_row picked_world) = 5
   \<and> hidden_value (the_row (step (Input ''Blue Pe'' 1000) picked_world)) = []
   \<and> qty_max_attr (the_row (step (Input ''Blue Pe'' 1000) picked_world)) = None
   \<and> max_bound (the_row (step (Input ''Blue Pe'' 1000) picked_world)) = 0"
proof -
  have before: "hidden_value (the_row picked_world) = ''p1'' \<and> max_bound (the_row picked_world) = 5"
    by code_simp
  with text_change_clears_selection [of "''Blue Pe''" 1000 picked_world] show ?thesis
    by blast
qed

section \<open>What each handler leaves alone\<close>

lemma prefetch_loaded_cb_row: "\<exists>r. prefetch_loaded_cb w = w\<lparr>the_row := r\<rparr>"
proof (cases "focused w")
  case True
  then show ?thesis
    by (auto simp: prefetch_loaded_cb_def)
next
  case False
  then have "prefetch_loaded_cb w = w\<lparr>the_row := the_row w\<rparr>"
    by (simp add: prefetch_loaded_cb_def)
  then show ?thesis ..
qed

lemma prefetch_loaded_cb_pow_row: "\<exists>r. (prefetch_loaded_cb ^^ n) w = w\<lparr>the_row := r\<rparr>"
proof (induction n)
  case 0
  have "(prefetch_loaded_cb ^^ 0) w = w\<lparr>the_row := the_row w\<rparr>"
    by simp
  then show ?case ..
next
  case (Suc n)
  then obtain r where r: "(prefetch_loaded_cb ^^ n) w = w\<lparr>the_row := r\<rparr>"
    by blast
  obtain r' where "prefetch_loaded_cb (w\<lparr>the_row := r\<rparr>) = w\<lparr>the_row := r\<rparr>\<lparr>the_row := r'\<rparr>"
    using prefetch_loaded_cb_row by blast
  with r have "(prefetch_loaded_cb ^^ Suc n) w = w\<lparr>the_row := r'\<rparr>"
    by simp
  then show ?case ..
qed

lemma prefetch_settle_pending:
  assumes "prefetchPromise w = Some Pending"
  shows "\<exists>r. prefetch_settle out w =
           w\<lparr>prefetchCache := (case prefetch_try out of Inl err \<Rightarrow> [] | Inr results \<Rightarrow> results),
             prefetchPromise := Some Settled, the_row := r, waiters := 0\<rparr>"
proof -
  let ?w1 = "w\<lparr>prefetchCache := (case prefetch_try out of Inl err \<Rightarrow> [] | Inr results \<Rightarrow> results),
               prefetchPromise := Some Settled\<rparr>"
  obtain r where "(prefetch_loaded_cb ^^ waiters ?w1) ?w1 = ?w1\<lparr>the_row := r\<rparr>"
    using prefetch_loaded_cb_pow_row by blast
  with assms have "prefetch_settle out w = ?w1\<lparr>the_row := r, waiters := 0\<rparr>"
    by (simp add: prefetch_settle_def Let_def)
  then show ?thesis
    by auto
qed

lemma prefetch_settle_not_pending: "prefetchPromise w \<noteq> Some Pending \<Longrightarrow> prefetch_settle out w = w"
  by (simp add: prefetch_settle_def)

lemma openPrefetch_fields:
  "prefetchCache (openPrefetch w) = prefetchCache w"
  "timers (openPrefetch w) = timers w"
  "next_timer (openPrefetch w) = next_timer w"
  "localTimer (openPrefetch w) = localTimer w"
  "requests (openPrefetch w) =
     (if prefetchCache w = [] \<and> prefetchPromise w = None then requests w @ [PrefetchReq PREFETCH_LIMIT]
      else requests w)"
  "prefetchPromise (openPrefetch w) =
     (if prefetchCache w = [] \<and> prefetchPromise w = None then Some Pending else prefetchPromise w)"
  by (auto simp: openPrefetch_def loadPrefetch_def prefetch_loaded_cb_def Let_def)

lemma on_focus_fields:
  "prefetchCache (on_focus w) = prefetchCache w"
  "timers (on_focus w) = timers (clear_if_set (hideTimer w) w)"
  "next_timer (on_focus w) = next_timer w"
  "localTimer (on_focus w) = localTimer w"
  "requests (on_focus w) =
     (if prefetchCache w = [] \<and> prefetchPromise w = None then requests w @ [PrefetchReq PREFETCH_LIMIT]
      else requests w)"
  "prefetchPromise (on_focus w) =
     (if prefetchCache w = [] \<and> prefetchPromise w = None then Some Pending else prefetchPromise w)"
  by (simp_all add: on_focus_def openPrefetch_fields)
    (simp_all add: clear_if_set_def clearTimeout_def split: option.splits)

lemma on_blur_fields:
  "prefetchCache (on_blur w) = prefetchCache w"
  "timers (on_blur w) = timers w @ [(next_timer w, 150, HideBox)]"
  "next_timer (on_blur w) = next_timer w + 1"
  "localTimer (on_blur w) = localTimer w"
  "requests (on_blur w) = requests w"
  "prefetchPromise (on_blur w) = prefetchPromise w"
  by (simp_all add: on_blur_def setTimeout_def)

lemma handleSearchInput_fields:
  "prefetchPromise (handleSearchInput now w) = prefetchPromise w"
  "requests (handleSearchInput now w) = requests w"
  "flights (handleSearchInput now w) = flights w"
  "timers (handleSearchInput now w) =
     (if 2 \<le> length (trim (search_value (the_row w)))
      then timers (clear_if_set (localTimer w) w)
           @ [(next_timer w, 220, RemoteLookup (trim (search_value (the_row w))) (show_nat now))]
      else timers (clear_if_set (localTimer w) w))"
  "next_timer (handleSearchInput now w) =
     (if 2 \<le> length (trim (search_value (the_row w))) then next_timer w + 1 else next_timer w)"
  "localTimer (handleSearchInput now w) =
     (if 2 \<le> length (trim (search_value (the_row w))) then Some (next_timer w) else localTimer w)"
  by (simp_all add: handleSearchInput_def Let_def setTimeout_def)
    (simp_all add: clear_if_set_def clearTimeout_def split: option.splits)

lemma row_only_fields:
  "prefetchCache (on_qty_input text w) = prefetchCache w"
  "timers (on_qty_input text w) = timers w"
  "next_timer (on_qty_input text w) = next_timer w"
  "localTimer (on_qty_input text w) = localTimer w"
  "requests (on_qty_input text w) = requests w"
  "prefetchPromise (on_qty_input text w) = prefetchPromise w"
  "prefetchCache (on_click p w) = prefetchCache w"
  "timers (on_click p w) = timers w"
  "next_timer (on_click p w) = next_timer w"
  "localTimer (on_click p w) = localTimer w"
  "requests (on_click p w) = requests w"
  "prefetchPromise (on_click p w) = prefetchPromise w"
  by (simp_all add: on_qty_input_def on_click_def split: box_content.splits)

lemma run_timer_fields:
  "prefetchCache (run_timer cb w) = prefetchCache w"
  "timers (run_timer cb w) = timers w"
  "next_timer (run_timer cb w) = next_timer w"
  "localTimer (run_timer cb w) = localTimer w"
  "prefetchPromise (run_timer cb w) = prefetchPromise w"
  "requests (run_timer cb w) =
     (case cb of RemoteLookup query requestId \<Rightarrow>
                   if length query < 2 then requests w else requests w @ [SearchReq query]
              | HideBox \<Rightarrow> requests w)"
  by (simp_all add: run_timer_def fetchRemoteProducts_def split: timer_cb.splits)

lemma fetch_resume_fields:
  "fetch_resume fid query requestId out w = Inr w' \<Longrightarrow>
     prefetchCache w' = prefetchCache w \<and> timers w' = timers w \<and> next_timer w' = next_timer w
     \<and> localTimer w' = localTimer w \<and> requests w' = requests w \<and> prefetchPromise w' = prefetchPromise w"
  by (auto simp: fetch_resume_def fetch_try_def search_catch_def split: fetch_outcome.splits if_splits)

lemma json_resume_fields:
  "json_resume requestId out w = Inr w' \<Longrightarrow>
     prefetchCache w' = prefetchCache w \<and> timers w' = timers w \<and> next_timer w' = next_timer w
     \<and> localTimer w' = localTimer w \<and> requests w' = requests w \<and> prefetchPromise w' = prefetchPromise w"
  by (auto simp: json_resume_def json_try_def search_catch_def Let_def split: json_outcome.splits if_splits)

lemma fetch_resume_fulfilled: "\<exists>w'. fetch_resume fid query requestId out w = Inr w'"
  by (simp add: fetch_resume_def split: sum.splits)

lemma json_resume_fulfilled: "\<exists>w'. json_resume requestId out w = Inr w'"
  by (simp add: json_resume_def split: sum.splits)

lemma drop_flight_fields [simp]:
  "prefetchCache (drop_flight fid w) = prefetchCache w"
  "timers (drop_flight fid w) = timers w"
  "next_timer (drop_flight fid w) = next_timer w"
  "localTimer (drop_flight fid w) = localTimer w"
  "requests (drop_flight fid w) = requests w"
  "prefetchPromise (drop_flight fid w) = prefetchPromise w"
  "the_row (drop_flight fid w) = the_row w"
  by (simp_all add: drop_flight_def)

lemma fetch_settle_fields:
  "prefetchCache (step (FetchSettle fid out) w) = prefetchCache w
   \<and> timers (step (FetchSettle fid out) w) = timers w
   \<and> next_timer (step (FetchSettle fid out) w) = next_timer w
   \<and> localTimer (step (FetchSettle fid out) w) = localTimer w
   \<and> requests (step (FetchSettle fid out) w) = requests w
   \<and> prefetchPromise (step (FetchSettle fid out) w) = prefetchPromise w"
proof (cases "map_of (flights w) fid")
  case None
  then show ?thesis by simp
next
  case (Some f)
  show ?thesis
  proof (cases f)
    case (AwaitFetch query requestId)
    obtain w' where w': "fetch_resume fid query requestId out (drop_flight fid w) = Inr w'"
      using fetch_resume_fulfilled by blast
    from fetch_resume_fields [OF w'] show ?thesis
      by (simp add: Some AwaitFetch w' settled_def)
  next
    case (AwaitJson query requestId)
    with Some show ?thesis by simp
  qed
qed

lemma json_settle_fields:
  "prefetchCache (step (JsonSettle fid out) w) = prefetchCache w
   \<and> timers (step (JsonSettle fid out) w) = timers w
   \<and> next_timer (step (JsonSettle fid out) w) = next_timer w
   \<and> localTimer (step (JsonSettle fid out) w) = localTimer w
   \<and> requests (step (JsonSettle fid out) w) = requests w
   \<and> prefetchPromise (step (JsonSettle fid out) w) = prefetchPromise w"
proof (cases "map_of (flights w) fid")
  case None
  then show ?thesis by simp
next
  case (Some f)
  show ?thesis
  proof (cases f)
    case (AwaitFetch query requestId)
    with Some show ?thesis by simp
  next
    case (AwaitJson query requestId)
    obtain w' where w': "json_resume requestId out (drop_flight fid w) = Inr w'"
      using json_resume_fulfilled by blast
    from json_resume_fields [OF w'] show ?thesis
      by (simp add: Some AwaitJson w' settled_def)
  qed
qed

lemma clearTimeout_fields [simp]:
  "prefetchCache (clearTimeout h w) = prefetchCache w"
  "next_timer (clearTimeout h w) = next_timer w"
  "localTimer (clearTimeout h w) = localTimer w"
  "requests (clearTimeout h w) = requests w"
  "prefetchPromise (clearTimeout h w) = prefetchPromise w"
  "timers (clearTimeout h w) = filter (\<lambda>t. fst t \<noteq> h) (timers w)"
  by (simp_all add: clearTimeout_def)

lemma timers_clear_if_set:
  "timers (clear_if_set t w) =
     (case t of None \<Rightarrow> timers w | Some h \<Rightarrow> if h = 0 then timers w else filter (\<lambda>t. fst t \<noteq> h) (timers w))"
  by (simp add: clear_if_set_def split: option.splits)

section \<open>Invariants of the reachable states\<close>

lemma is_prefetch_simps [simp]:
  "is_prefetch (PrefetchReq n)" "\<not> is_prefetch (SearchReq q)"
  by (simp_all add: is_prefetch_def)

lemma long_query_simps [simp]:
  "long_query (PrefetchReq n)" "long_query (SearchReq q) = (2 \<le> length q)"
  by (simp_all add: long_query_def)

lemma step_prefetch_ok:
  assumes "prefetch_ok w"
  shows "prefetch_ok (step e w)"
proof (cases e)
  case Focus
  with assms show ?thesis
    by (auto simp: prefetch_ok_def on_focus_fields)
next
  case Blur
  with assms show ?thesis
    by (simp add: prefetch_ok_def on_blur_fields)
next
  case (Input str now)
  with assms show ?thesis
    by (simp add: prefetch_ok_def handleSearchInput_fields)
next
  case (QtyInput str)
  with assms show ?thesis
    by (simp add: prefetch_ok_def row_only_fields)
next
  case (Click p)
  with assms show ?thesis
    by (simp add: prefetch_ok_def row_only_fields)
next
  case (TimerFire h)
  with assms show ?thesis
    by (auto simp: prefetch_ok_def run_timer_fields split: option.splits timer_cb.splits)
next
  case (FetchSettle fid out)
  with assms fetch_settle_fields [of fid out w] show ?thesis
    by (simp add: prefetch_ok_def)
next
  case (JsonSettle fid out)
  with assms json_settle_fields [of fid out w] show ?thesis
    by (simp add: prefetch_ok_def)
next
  case (PrefetchSettle out)
  show ?thesis
  proof (cases "prefetchPromise w = Some Pending")
    case True
    then obtain r where "prefetch_settle out w =
        w\<lparr>prefetchCache := (case prefetch_try out of Inl err \<Rightarrow> [] | Inr results \<Rightarrow> results),
          prefetchPromise := Some Settled, the_row := r, waiters := 0\<rparr>"
      using prefetch_settle_pending by blast
    with assms PrefetchSettle True show ?thesis
      by (simp add: prefetch_ok_def)
  next
    case False
    with assms PrefetchSettle show ?thesis
      by (simp add: prefetch_settle_not_pending)
  qed
next
  case LoadCall
  with assms show ?thesis
    by (auto simp: prefetch_ok_def loadPrefetch_def)
qed

lemma step_requests_grow:
  "\<exists>new. requests (step e w) = requests w @ new \<and> list_all long_query new"
proof (cases e)
  case Focus
  then show ?thesis
    by (simp add: on_focus_fields)
next
  case Blur
  then show ?thesis
    by (simp add: on_blur_fields)
next
  case (Input str now)
  then show ?thesis
    by (simp add: handleSearchInput_fields)
next
  case (QtyInput str)
  then show ?thesis
    by (simp add: row_only_fields)
next
  case (Click p)
  then show ?thesis
    by (simp add: row_only_fields)
next
  case (TimerFire h)
  then show ?thesis
    by (auto simp: run_timer_fields split: option.splits timer_cb.splits)
next
  case (FetchSettle fid out)
  with fetch_settle_fields [of fid out w] show ?thesis
    by simp
next
  case (JsonSettle fid out)
  with json_settle_fields [of fid out w] show ?thesis
    by simp
next
  case (PrefetchSettle out)
  show ?thesis
  proof (cases "prefetchPromise w = Some Pending")
    case True
    then obtain r where "prefetch_settle out w =
        w\<lparr>prefetchCache := (case prefetch_try out of Inl err \<Rightarrow> [] | Inr results \<Rightarrow> results),
          prefetchPromise := Some Settled, the_row := r, waiters := 0\<rparr>"
      using prefetch_settle_pending by blast
    with PrefetchSettle show ?thesis
      by simp
  next
    case False
    with PrefetchSettle show ?thesis
      by (simp add: prefetch_settle_not_pending)
  qed
next
  case LoadCall
  then show ?thesis
    by (simp add: loadPrefetch_def)
qed

lemma step_long_queries: "list_all long_query (requests w) \<Longrightarrow> list_all long_query (requests (step e w))"
  using step_requests_grow [of e w] by auto

lemma run_prefetch_ok: "prefetch_ok w \<Longrightarrow> prefetch_ok (run evs w)"
  by (induction evs arbitrary: w) (simp_all add: step_prefetch_ok)

lemma run_long_queries: "list_all long_query (requests w) \<Longrightarrow> list_all long_query (requests (run evs w))"
  by (induction evs arbitrary: w) (simp_all add: step_long_queries)

lemma init_world_ok:
  "prefetch_ok init_world" "list_all long_query (requests init_world)" "timers_ok init_world"
  by (simp_all add: init_world_def fresh_module_def loadPrefetch_def prefetch_ok_def timers_ok_def
      lookups_def)

lemma filter_fst_lookups:
  "filter is_lookup (filter (\<lambda>t. fst t \<noteq> h) ts) = filter (\<lambda>t. fst t \<noteq> h) (filter is_lookup ts)"
  by (induction ts) simp_all

lemma lookups_cleared:
  assumes "list_all (\<lambda>t. lt = Some (fst t) \<and> 0 < fst t) (filter is_lookup ts)"
  shows "filter is_lookup
           (case lt of None \<Rightarrow> ts | Some h \<Rightarrow> if h = 0 then ts else filter (\<lambda>t. fst t \<noteq> h) ts) = []"
proof -
  have named: "lt = Some (fst t) \<and> 0 < fst t" if "t \<in> set ts" and "is_lookup t" for t
    using assms that by (cases t) (auto simp: list_all_iff)
  show ?thesis
  proof (cases lt)
    case None
    with named show ?thesis
      by (auto simp: filter_empty_conv)
  next
    case (Some h)
    with named show ?thesis
      by (fastforce simp: filter_empty_conv)
  qed
qed

lemma timers_ok_lookups_named:
  "timers_ok w \<Longrightarrow> list_all (\<lambda>t. localTimer w = Some (fst t) \<and> 0 < fst t) (filter is_lookup (timers w))"
  by (auto simp: timers_ok_def lookups_def list_all_iff)

lemma handleSearchInput_lookups:
  assumes "timers_ok w"
  shows "lookups (handleSearchInput now w) =
           (if 2 \<le> length (trim (search_value (the_row w)))
            then [(next_timer w, 220, RemoteLookup (trim (search_value (the_row w))) (show_nat now))]
            else [])"
  using lookups_cleared [OF timers_ok_lookups_named [OF assms]]
  by (simp add: lookups_def handleSearchInput_fields timers_clear_if_set is_lookup_def)

lemma list_all_filter_mono: "list_all P xs \<Longrightarrow> list_all P (filter Q xs)"
  by (simp add: list_all_iff)

lemma timers_ok_remove:
  assumes "timers_ok w"
    and "timers w' = filter (\<lambda>t. fst t \<noteq> h) (timers w)"
    and "next_timer w' = next_timer w" and "localTimer w' = localTimer w"
  shows "timers_ok w'"
proof -
  have l: "lookups w' = filter (\<lambda>t. fst t \<noteq> h) (lookups w)"
    unfolding lookups_def assms(2) by (rule filter_fst_lookups)
  have "length (lookups w') \<le> length (lookups w)"
    unfolding l by (rule length_filter_le)
  with assms(1) have short: "length (lookups w') \<le> 1"
    by (simp add: timers_ok_def)
  from assms have "0 < next_timer w'"
    and "list_all (\<lambda>t. 0 < fst t \<and> fst t < next_timer w') (timers w')"
    and "list_all (\<lambda>t. localTimer w' = Some (fst t)) (lookups w')"
    by (simp_all add: timers_ok_def l list_all_filter_mono)
  with short show ?thesis
    by (simp add: timers_ok_def)
qed

lemma timers_ok_same:
  assumes "timers_ok w"
    and "timers w' = timers w" and "next_timer w' = next_timer w" and "localTimer w' = localTimer w"
  shows "timers_ok w'"
  using assms by (simp add: timers_ok_def lookups_def)

lemma step_timers_ok:
  assumes "timers_ok w"
  shows "timers_ok (step e w)"
proof (cases e)
  case Focus
  show ?thesis
  proof (cases "hideTimer w")
    case None
    with assms Focus show ?thesis
      by (auto intro: timers_ok_same simp: on_focus_fields timers_clear_if_set)
  next
    case (Some h)
    with assms Focus show ?thesis
      by (cases "h = 0")
        (auto intro: timers_ok_same timers_ok_remove simp: on_focus_fields timers_clear_if_set)
  qed
next
  case Blur
  with assms show ?thesis
    by (auto simp: timers_ok_def lookups_def on_blur_fields is_lookup_def list_all_iff)
next
  case (Input str now)
  let ?w = "w\<lparr>the_row := (the_row w)\<lparr>search_value := str\<rparr>\<rparr>"
  from assms have ok: "timers_ok ?w"
    by (simp add: timers_ok_def lookups_def)
  have cleared: "list_all (\<lambda>t. 0 < fst t \<and> fst t < next_timer w) (timers (clear_if_set (localTimer w) ?w))"
    using assms
    by (auto simp: timers_ok_def timers_clear_if_set list_all_iff split: option.splits)
  have "list_all (\<lambda>t. 0 < fst t \<and> fst t < Suc (next_timer w)) (timers (clear_if_set (localTimer w) ?w))"
    using cleared by (auto simp: list_all_iff)
  with assms cleared Input handleSearchInput_lookups [OF ok, of now] show ?thesis
    by (simp add: timers_ok_def handleSearchInput_fields)
next
  case (QtyInput str)
  with assms show ?thesis
    by (auto intro: timers_ok_same simp: row_only_fields)
next
  case (Click p)
  with assms show ?thesis
    by (auto intro: timers_ok_same simp: row_only_fields)
next
  case (TimerFire h)
  show ?thesis
  proof (cases "map_of (timers w) h")
    case None
    with assms TimerFire show ?thesis by simp
  next
    case (Some t)
    obtain delay cb where t: "t = (delay, cb)"
      by (cases t)
    have "timers_ok (run_timer cb (clearTimeout h w))"
      using assms by (rule timers_ok_remove) (simp_all add: run_timer_fields)
    with TimerFire Some t show ?thesis by simp
  qed
next
  case (FetchSettle fid out)
  with assms fetch_settle_fields [of fid out w] show ?thesis
    by (auto intro: timers_ok_same)
next
  case (JsonSettle fid out)
  with assms json_settle_fields [of fid out w] show ?thesis
    by (auto intro: timers_ok_same)
next
  case (PrefetchSettle out)
  show ?thesis
  proof (cases "prefetchPromise w = Some Pending")
    case True
    then obtain r where "prefetch_settle out w =
        w\<lparr>prefetchCache := (case prefetch_try out of Inl err \<Rightarrow> [] | Inr results \<Rightarrow> results),
          prefetchPromise := Some Settled, the_row := r, waiters := 0\<rparr>"
      using prefetch_settle_pending by blast
    with assms PrefetchSettle show ?thesis
      by (auto intro: timers_ok_same)
  next
    case False
    with assms PrefetchSettle show ?thesis
      by (simp add: prefetch_settle_not_pending)
  qed
next
  case LoadCall
  with assms show ?thesis
    by (auto intro: timers_ok_same simp: loadPrefetch_def)
qed

lemma run_timers_ok: "timers_ok w \<Longrightarrow> timers_ok (run evs w)"
  by (induction evs arbitrary: w) (simp_all add: step_timers_ok)

lemma step_promise_kept:
  assumes "prefetchPromise w \<noteq> None"
  shows "prefetchPromise (step e w) \<noteq> None"
proof (cases e)
  case Focus
  with assms show ?thesis
    by (simp add: on_focus_fields)
next
  case Blur
  with assms show ?thesis
    by (simp add: on_blur_fields)
next
  case (Input str now)
  with assms show ?thesis
    by (simp add: handleSearchInput_fields)
next
  case (QtyInput str)
  with assms show ?thesis
    by (simp add: row_only_fields)
next
  case (Click p)
  with assms show ?thesis
    by (simp add: row_only_fields)
next
  case (TimerFire h)
  with assms show ?thesis
    by (simp add: run_timer_fields split: option.splits)
next
  case (FetchSettle fid out)
  with assms fetch_settle_fields [of fid out w] show ?thesis
    by simp
next
  case (JsonSettle fid out)
  with assms json_settle_fields [of fid out w] show ?thesis
    by simp
next
  case (PrefetchSettle out)
  show ?thesis
  proof (cases "prefetchPromise w = Some Pending")
    case True
    then obtain r where "prefetch_settle out w =
        w\<lparr>prefetchCache := (case prefetch_try out of Inl err \<Rightarrow> [] | Inr results \<Rightarrow> results),
          prefetchPromise := Some Settled, the_row := r, waiters := 0\<rparr>"
      using prefetch_settle_pending by blast
    with PrefetchSettle show ?thesis
      by simp
  next
    case False
    with assms PrefetchSettle show ?thesis
      by (simp add: prefetch_settle_not_pending)
  qed
next
  case LoadCall
  with assms show ?thesis
    by (simp add: loadPrefetch_def)
qed

lemma run_promise_kept: "prefetchPromise w \<noteq> None \<Longrightarrow> prefetchPromise (run evs w) \<noteq> None"
proof (induction evs arbitrary: w)
  case Nil
  then show ?case by simp
next
  case (Cons e evs)
  from Cons.prems have "prefetchPromise (step e w) \<noteq> None"
    by (rule step_promise_kept)
  then have "prefetchPromise (run evs (step e w)) \<noteq> None"
    by (rule Cons.IH)
  then show ?case by simp
qed

section \<open>The prefetch is loaded once\<close>

lemma loadPrefetch_again: "prefetchPromise w \<noteq> None \<Longrightarrow> loadPrefetch w = w"
  by (simp add: loadPrefetch_def)

lemma loadPrefetch_repeated: "(loadPrefetch ^^ Suc n) fresh_module = init_world"
proof (induction n)
  case 0
  show ?case by (simp add: init_world_def)
next
  case (Suc n)
  have "prefetchPromise init_world \<noteq> None"
    by (simp add: init_world_def fresh_module_def loadPrefetch_def)
  then have "loadPrefetch init_world = init_world"
    by (rule loadPrefetch_again)
  with Suc show ?case by simp
qed

text \<open>
  Claim C3. However many times \<^verbatim>\<open>loadPrefetch\<close> is called in a row on the freshly
  evaluated module, one request to the prefetch endpoint is sent and the promise stays pending;
  a call made while the load is pending changes nothing, so it sends no request and hands back
  the pending promise; and whatever events follow the module's own call (further calls, focus,
  typing, timers, responses), the requests sent hold exactly one prefetch request.
\<close>

theorem loadPrefetch_single_request:
  "(0 < n \<longrightarrow>
      requests ((loadPrefetch ^^ n) fresh_module) = [PrefetchReq PREFETCH_LIMIT]
      \<and> prefetchPromise ((loadPrefetch ^^ n) fresh_module) = Some Pending)
   \<and> (prefetchPromise w = Some Pending \<longrightarrow> loadPrefetch w = w)
   \<and> filter is_prefetch (requests (run evs init_world)) = [PrefetchReq PREFETCH_LIMIT]"
proof -
  have calls: "requests ((loadPrefetch ^^ n) fresh_module) = [PrefetchReq PREFETCH_LIMIT]
      \<and> prefetchPromise ((loadPrefetch ^^ n) fresh_module) = Some Pending" if "0 < n"
  proof -
    from that obtain m where "n = Suc m"
      by (cases n) auto
    then have "(loadPrefetch ^^ n) fresh_module = init_world"
      using loadPrefetch_repeated by simp
    then show ?thesis
      by (simp add: init_world_def fresh_module_def loadPrefetch_def)
  qed
  have pending: "loadPrefetch w = w" if "prefetchPromise w = Some Pending"
    using that by (simp add: loadPrefetch_again)
  have "prefetchPromise init_world \<noteq> None"
    by (simp add: init_world_def fresh_module_def loadPrefetch_def)
  then have "prefetchPromise (run evs init_world) \<noteq> None"
    by (rule run_promise_kept)
  moreover have "prefetch_ok (run evs init_world)"
    using init_world_ok(1) by (rule run_prefetch_ok)
  ultimately have "filter is_prefetch (requests (run evs init_world)) = [PrefetchReq PREFETCH_LIMIT]"
    by (simp add: prefetch_ok_def)
  with calls pending show ?thesis
    by blast
qed

theorem loadPrefetch_single_request_witness:
  "(0::nat) < 3
   \<and> requests ((loadPrefetch ^^ 3) fresh_module) = [PrefetchReq PREFETCH_LIMIT]
   \<and> prefetchPromise init_world = Some Pending
   \<and> loadPrefetch init_world = init_world
   \<and> filter is_prefetch (requests (run [LoadCall, Focus, LoadCall] init_world)) = [PrefetchReq PREFETCH_LIMIT]"
proof -
  have three: "(0::nat) < 3"
    by simp
  have pending: "prefetchPromise init_world = Some Pending"
    by (simp add: init_world_def fresh_module_def loadPrefetch_def)
  from three pending loadPrefetch_single_request [of 3 init_world "[LoadCall, Focus, LoadCall]"]
  show ?thesis
    by blast
qed

text \<open>
  Claim C4, as amended. When the prefetch fails (the fetch rejects, the status is not a
  success, or the body is not JSON), the error is swallowed: the cache is empty, the promise is
  fulfilled and no request is sent. The promise is never reset, so a later call of
  \<^verbatim>\<open>loadPrefetch\<close> changes nothing: the failed load is retried neither automatically nor
  by the next explicit call.
\<close>

theorem prefetch_failure_not_retried:
  "prefetchPromise w = Some Pending \<and> prefetch_try out = Inl err \<longrightarrow>
     prefetchCache (step (PrefetchSettle out) w) = []
     \<and> prefetchPromise (step (PrefetchSettle out) w) = Some Settled
     \<and> requests (step (PrefetchSettle out) w) = requests w
     \<and> step LoadCall (step (PrefetchSettle out) w) = step (PrefetchSettle out) w"
proof
  assume a: "prefetchPromise w = Some Pending \<and> prefetch_try out = Inl err"
  then obtain r where settle: "prefetch_settle out w =
      w\<lparr>prefetchCache := (case prefetch_try out of Inl err \<Rightarrow> [] | Inr results \<Rightarrow> results),
        prefetchPromise := Some Settled, the_row := r, waiters := 0\<rparr>"
    using prefetch_settle_pending by blast
  with a show "prefetchCache (step (PrefetchSettle out) w) = []
     \<and> prefetchPromise (step (PrefetchSettle out) w) = Some Settled
     \<and> requests (step (PrefetchSettle out) w) = requests w
     \<and> step LoadCall (step (PrefetchSettle out) w) = step (PrefetchSettle out) w"
    by (simp add: loadPrefetch_def)
qed

theorem prefetch_failure_not_retried_witness:
  "prefetchPromise init_world = Some Pending
   \<and> prefetch_try (PrefetchResponse 500 JsonNull) = Inl (PrefetchFailed 500)
   \<and> prefetchCache (step (PrefetchSettle (PrefetchResponse 500 JsonNull)) init_world) = []
   \<and> step LoadCall (step (PrefetchSettle (PrefetchResponse 500 JsonNull)) init_world)
       = step (PrefetchSettle (PrefetchResponse 500 JsonNull)) init_world"
proof -
  have pending: "prefetchPromise init_world = Some Pending"
    by (simp add: init_world_def fresh_module_def loadPrefetch_def)
  have failed: "prefetch_try (PrefetchResponse 500 JsonNull) = Inl (PrefetchFailed 500)"
    by (simp add: prefetch_try_def res_ok_def)
  from pending failed
    prefetch_failure_not_retried [of init_world "PrefetchResponse 500 JsonNull" "PrefetchFailed 500"]
  show ?thesis
    by blast
qed

text \<open>
  Claim C4 as first worded has the next explicit call retry the fetch. After a rejected
  prefetch the cache is empty, and the call of \<^verbatim>\<open>loadPrefetch\<close> that follows sends
  nothing: the requests are the ones sent before it.
\<close>

theorem prefetch_failure_no_second_request:
  "prefetchCache (run [PrefetchSettle PrefetchRejected] init_world) = []
   \<and> requests (run [PrefetchSettle PrefetchRejected, LoadCall] init_world)
       = requests (run [PrefetchSettle PrefetchRejected] init_world)
   \<and> requests (run [PrefetchSettle PrefetchRejected, LoadCall] init_world) = [PrefetchReq 300]"
  by code_simp

section \<open>The remote search\<close>

lemma parseInt_show_nat: "parseInt (show_nat n) = Some (int n)"
  using parseInt_digits(1) [of "show_nat n"] show_nat_digits [of n]
  by (simp add: digits_val_show_nat)

text \<open>
  Claim C9. In every state the picker reaches, each search request that was sent carries a
  query of at least two characters. Both guards of the code are behind this: a call of
  \<^verbatim>\<open>fetchRemoteProducts\<close> with a shorter query returns at once, and a text change to a
  shorter query sends nothing and leaves no debounce timer pending.
\<close>

theorem remote_search_needs_two_chars:
  "(\<forall>q. SearchReq q \<in> set (requests (run evs init_world)) \<longrightarrow> 2 \<le> length q)
   \<and> (length query < 2 \<longrightarrow> fetchRemoteProducts query requestId w = w)
   \<and> (length (trim str) < 2 \<longrightarrow>
        requests (step (Input str now) (run evs init_world)) = requests (run evs init_world)
        \<and> lookups (step (Input str now) (run evs init_world)) = [])"
proof -
  have "list_all long_query (requests (run evs init_world))"
    using init_world_ok(2) by (rule run_long_queries)
  then have sent: "\<forall>q. SearchReq q \<in> set (requests (run evs init_world)) \<longrightarrow> 2 \<le> length q"
    by (auto simp: list_all_iff)
  have guard: "fetchRemoteProducts query requestId w = w" if "length query < 2"
    using that by (simp add: fetchRemoteProducts_def)
  have ok: "timers_ok ((run evs init_world)\<lparr>the_row := (the_row (run evs init_world))\<lparr>search_value := str\<rparr>\<rparr>)"
    using run_timers_ok [OF init_world_ok(3), of evs] by (simp add: timers_ok_def lookups_def)
  have short: "requests (step (Input str now) (run evs init_world)) = requests (run evs init_world)
        \<and> lookups (step (Input str now) (run evs init_world)) = []" if "length (trim str) < 2"
    using that handleSearchInput_lookups [OF ok, of now] by (simp add: handleSearchInput_fields)
  from sent guard short show ?thesis
    by blast
qed

theorem remote_search_needs_two_chars_witness:
  "SearchReq ''blue'' \<in> set (requests (run late_response init_world))
   \<and> 2 \<le> length ''blue''
   \<and> length (trim '' b '') < 2
   \<and> lookups (step (Input '' b '' 1300) (run late_response init_world)) = []
   \<and> requests (run late_response init_world) = [PrefetchReq 300, SearchReq ''blue'']"
proof -
  have sent: "requests (run late_response init_world) = [PrefetchReq 300, SearchReq ''blue'']"
    by code_simp
  then have mem: "SearchReq ''blue'' \<in> set (requests (run late_response init_world))"
    by simp
  have short: "length (trim '' b '') < 2"
    by code_simp
  from sent mem short
    remote_search_needs_two_chars [where evs = late_response and str = "'' b ''" and now = 1300]
  show ?thesis
    by blast
qed

text \<open>
  Claim C8, as amended. In every state the picker reaches, a text change to a query of at least
  two characters sets the token to the decimal rendering of the clock reading, so the token
  read as a number is that reading: it exceeds an earlier token exactly when the clock has
  advanced since. The pending debounce timer it named is cancelled and one lookup is
  scheduled, 220 ms ahead, for the trimmed query and the new token: it is then the only
  pending debounce timer, and no reachable state has more than one.
\<close>

theorem text_change_schedules_lookup:
  "(2 \<le> length (trim str) \<longrightarrow>
      remote_request_id (the_row (step (Input str now) (run evs init_world))) = Some (show_nat now)
      \<and> token_number (step (Input str now) (run evs init_world)) = Some (int now)
      \<and> lookups (step (Input str now) (run evs init_world))
          = [(next_timer (run evs init_world), 220, RemoteLookup (trim str) (show_nat now))]
      \<and> localTimer (step (Input str now) (run evs init_world)) = Some (next_timer (run evs init_world)))
   \<and> length (lookups (run evs init_world)) \<le> 1"
proof -
  let ?w = "run evs init_world"
  have reach: "timers_ok ?w"
    using init_world_ok(3) by (rule run_timers_ok)
  then have ok: "timers_ok (?w\<lparr>the_row := (the_row ?w)\<lparr>search_value := str\<rparr>\<rparr>)"
    by (simp add: timers_ok_def lookups_def)
  have long: "remote_request_id (the_row (step (Input str now) ?w)) = Some (show_nat now)
      \<and> token_number (step (Input str now) ?w) = Some (int now)
      \<and> lookups (step (Input str now) ?w) = [(next_timer ?w, 220, RemoteLookup (trim str) (show_nat now))]
      \<and> localTimer (step (Input str now) ?w) = Some (next_timer ?w)"
    if "2 \<le> length (trim str)"
    using that handleSearchInput_lookups [OF ok, of now]
    by (simp add: handleSearchInput_fields the_row_handleSearchInput token_number_def parseInt_show_nat
        Let_def)
  from reach have "length (lookups ?w) \<le> 1"
    by (simp add: timers_ok_def)
  with long show ?thesis
    by blast
qed

theorem text_change_schedules_lookup_witness:
  "2 \<le> length (trim ''blues'')
   \<and> lookups (run [Input ''blue'' 1000] init_world) = [(1, 220, RemoteLookup ''blue'' ''1000'')]
   \<and> token_number (step (Input ''blues'' 1300) (run [Input ''blue'' 1000] init_world)) = Some 1300
   \<and> lookups (step (Input ''blues'' 1300) (run [Input ''blue'' 1000] init_world))
       = [(2, 220, RemoteLookup ''blues'' ''1300'')]"
proof -
  have long: "2 \<le> length (trim ''blues'')"
    by code_simp
  have before: "lookups (run [Input ''blue'' 1000] init_world) = [(1, 220, RemoteLookup ''blue'' ''1000'')]"
    by code_simp
  have readings: "next_timer (run [Input ''blue'' 1000] init_world) = 2" "trim ''blues'' = ''blues''"
    "show_nat 1300 = ''1300''"
    by code_simp+
  from long text_change_schedules_lookup [where str = "''blues''" and now = 1300 and evs = "[Input ''blue'' 1000]"]
  have "token_number (step (Input ''blues'' 1300) (run [Input ''blue'' 1000] init_world)) = Some (int 1300)
      \<and> lookups (step (Input ''blues'' 1300) (run [Input ''blue'' 1000] init_world))
          = [(next_timer (run [Input ''blue'' 1000] init_world), 220,
              RemoteLookup (trim ''blues'') (show_nat 1300))]"
    by blast
  with long before readings show ?thesis
    by simp
qed

text \<open>
  Claim C8 as first worded has every new token strictly greater than the tokens before it.
  Two text changes at the same clock reading get the same token.
\<close>

theorem same_reading_same_token:
  "token_number (run [Input ''blue'' 1000] init_world) = Some 1000
   \<and> token_number (run [Input ''blue'' 1000, Input ''blues'' 1000] init_world) = Some 1000
   \<and> remote_request_id (the_row (run [Input ''blue'' 1000, Input ''blues'' 1000] init_world))
       = remote_request_id (the_row (run [Input ''blue'' 1000] init_world))"
  by code_simp

section \<open>Late and failed responses\<close>

text \<open>
  A response whose request id is not the token of the row is dropped at each of the three
  checks of \<^verbatim>\<open>fetchRemoteProducts\<close>: the state stays as it is and the call ends.
\<close>

lemma stale_response_discarded:
  assumes "stale requestId w"
  shows "fetch_resume fid query requestId out w = Inr w"
    and "json_resume requestId jout w = Inr w"
  using assms
  by (simp_all add: fetch_resume_def fetch_try_def json_resume_def json_try_def search_catch_def
      Let_def split: fetch_outcome.splits json_outcome.splits)

text \<open>
  A text change to a query of at least two characters makes every request id issued at another
  clock reading stale.
\<close>

lemma long_query_supersedes:
  assumes "2 \<le> length (trim str)" and "t \<noteq> now"
  shows "stale (show_nat t) (step (Input str now) w)"
  using assms show_nat_inj [of t now]
  by (auto simp: stale_def the_row_handleSearchInput Let_def)

lemma renderMessage_box:
  "m \<noteq> [] \<Longrightarrow> box (renderMessage m r) = Message m" "box_hidden (renderMessage m r) = False"
  by (simp_all add: renderMessage_def)

lemma fetch_failure_step:
  assumes flight: "map_of (flights w) fid = Some (AwaitFetch query requestId)"
    and failure: "out = FetchRejected \<or> (\<exists>status. out = Response status \<and> \<not> res_ok status)"
  shows "fetch_resume fid query requestId out (drop_flight fid w) = Inr (step (FetchSettle fid out) w)"
    and "stale requestId w \<Longrightarrow> the_row (step (FetchSettle fid out) w) = the_row w"
    and "\<not> stale requestId w \<Longrightarrow>
           box (the_row (step (FetchSettle fid out) w))
             = Message (case out of FetchRejected \<Rightarrow> ''Search failed''
                        | Response status \<Rightarrow> ''Search failed ('' @ show_nat status @ '')'')
           \<and> \<not> box_hidden (the_row (step (FetchSettle fid out) w))"
proof -
  obtain w' where w': "fetch_resume fid query requestId out (drop_flight fid w) = Inr w'"
    using fetch_resume_fulfilled by blast
  with flight have s: "step (FetchSettle fid out) w = w'"
    by (simp add: settled_def)
  from w' s show "fetch_resume fid query requestId out (drop_flight fid w) = Inr (step (FetchSettle fid out) w)"
    by simp
  have st: "stale requestId (drop_flight fid w) = stale requestId w"
    by (simp add: stale_def)
  show "the_row (step (FetchSettle fid out) w) = the_row w" if "stale requestId w"
    using that st stale_response_discarded(1) [of requestId "drop_flight fid w" fid query out] w' s
    by simp
  show "box (the_row (step (FetchSettle fid out) w))
             = Message (case out of FetchRejected \<Rightarrow> ''Search failed''
                        | Response status \<Rightarrow> ''Search failed ('' @ show_nat status @ '')'')
           \<and> \<not> box_hidden (the_row (step (FetchSettle fid out) w))" if "\<not> stale requestId w"
    using that st failure w' unfolding s
    by (auto simp: fetch_resume_def fetch_try_def search_catch_def renderMessage_box)
qed

lemma json_failure_step:
  assumes flight: "map_of (flights w) fid = Some (AwaitJson query requestId)"
    and failure: "out = JsonRejected \<or> out = JsonNull"
  shows "json_resume requestId out (drop_flight fid w) = Inr (step (JsonSettle fid out) w)"
    and "stale requestId w \<Longrightarrow> the_row (step (JsonSettle fid out) w) = the_row w"
    and "\<not> stale requestId w \<Longrightarrow>
           box (the_row (step (JsonSettle fid out) w)) = Message ''Search failed''
           \<and> \<not> box_hidden (the_row (step (JsonSettle fid out) w))"
proof -
  obtain w' where w': "json_resume requestId out (drop_flight fid w) = Inr w'"
    using json_resume_fulfilled by blast
  with flight have s: "step (JsonSettle fid out) w = w'"
    by (simp add: settled_def)
  from w' s show "json_resume requestId out (drop_flight fid w) = Inr (step (JsonSettle fid out) w)"
    by simp
  have st: "stale requestId (drop_flight fid w) = stale requestId w"
    by (simp add: stale_def)
  show "the_row (step (JsonSettle fid out) w) = the_row w" if "stale requestId w"
    using that st stale_response_discarded(2) [of requestId "drop_flight fid w" out] w' s
    by simp
  show "box (the_row (step (JsonSettle fid out) w)) = Message ''Search failed''
           \<and> \<not> box_hidden (the_row (step (JsonSettle fid out) w))" if "\<not> stale requestId w"
    using that st failure w' unfolding s
    by (auto simp: json_resume_def json_try_def search_catch_def renderMessage_box)
qed

lemma prefetch_failure_cache:
  assumes "prefetch_ok w" and "prefetch_try out = Inl err"
  shows "prefetchCache (step (PrefetchSettle out) w) = prefetchCache w"
proof (cases "prefetchPromise w = Some Pending")
  case True
  then obtain r where "prefetch_settle out w =
      w\<lparr>prefetchCache := (case prefetch_try out of Inl err \<Rightarrow> [] | Inr results \<Rightarrow> results),
        prefetchPromise := Some Settled, the_row := r, waiters := 0\<rparr>"
    using prefetch_settle_pending by blast
  with assms True show ?thesis
    by (simp add: prefetch_ok_def)
next
  case False
  then show ?thesis
    by (simp add: prefetch_settle_not_pending)
qed

text \<open>
  Claim C6. When the fetch of a suspended search call rejects or answers with a status outside
  200-299, or its body cannot be read, the call ends normally (its promise is fulfilled with
  the state the step leaves, no error leaves the function); if its request id is still the
  token of the row the box shows the message \<open>Search failed\<close> (with the status, for a
  response) and is visible, and if the id is stale the row is left as it was. The cache is not
  touched. A failed prefetch, in any state the picker reaches, leaves the cache as it was too.
\<close>

theorem remote_failure_handling:
  "(map_of (flights w) fid = Some (AwaitFetch query requestId)
      \<and> (out = FetchRejected \<or> (\<exists>status. out = Response status \<and> \<not> res_ok status)) \<longrightarrow>
      fetch_resume fid query requestId out (drop_flight fid w) = Inr (step (FetchSettle fid out) w)
      \<and> prefetchCache (step (FetchSettle fid out) w) = prefetchCache w
      \<and> (stale requestId w \<longrightarrow> the_row (step (FetchSettle fid out) w) = the_row w)
      \<and> (\<not> stale requestId w \<longrightarrow>
            box (the_row (step (FetchSettle fid out) w))
              = Message (case out of FetchRejected \<Rightarrow> ''Search failed''
                         | Response status \<Rightarrow> ''Search failed ('' @ show_nat status @ '')'')
            \<and> \<not> box_hidden (the_row (step (FetchSettle fid out) w))))
   \<and> (map_of (flights w) fid = Some (AwaitJson query requestId)
      \<and> (jout = JsonRejected \<or> jout = JsonNull) \<longrightarrow>
      json_resume requestId jout (drop_flight fid w) = Inr (step (JsonSettle fid jout) w)
      \<and> prefetchCache (step (JsonSettle fid jout) w) = prefetchCache w
      \<and> (stale requestId w \<longrightarrow> the_row (step (JsonSettle fid jout) w) = the_row w)
      \<and> (\<not> stale requestId w \<longrightarrow>
            box (the_row (step (JsonSettle fid jout) w)) = Message ''Search failed''
            \<and> \<not> box_hidden (the_row (step (JsonSettle fid jout) w))))
   \<and> (prefetch_try pout = Inl err \<longrightarrow>
        prefetchCache (step (PrefetchSettle pout) (run evs init_world)) = prefetchCache (run evs init_world))"
proof -
  have "prefetch_ok (run evs init_world)"
    using init_world_ok(1) by (rule run_prefetch_ok)
  then have prefetch: "prefetchCache (step (PrefetchSettle pout) (run evs init_world)) = prefetchCache (run evs init_world)"
    if "prefetch_try pout = Inl err"
    using that by (rule prefetch_failure_cache)
  from prefetch fetch_failure_step [of w fid query requestId out] fetch_settle_fields [of fid out w]
    json_failure_step [of w fid query requestId jout] json_settle_fields [of fid jout w]
  show ?thesis
    by blast
qed

theorem remote_failure_handling_witness:
  "map_of (flights awaiting_world) 0 = Some (AwaitFetch ''blue'' ''1000'')
   \<and> \<not> res_ok 500
   \<and> \<not> stale ''1000'' awaiting_world
   \<and> fetch_resume 0 ''blue'' ''1000'' (Response 500) (drop_flight 0 awaiting_world)
       = Inr (step (FetchSettle 0 (Response 500)) awaiting_world)
   \<and> box (the_row (step (FetchSettle 0 (Response 500)) awaiting_world)) = Message ''Search failed (500)''
   \<and> \<not> box_hidden (the_row (step (FetchSettle 0 (Response 500)) awaiting_world))
   \<and> prefetchCache (step (FetchSettle 0 (Response 500)) awaiting_world) = prefetchCache awaiting_world"
proof -
  have flight: "map_of (flights awaiting_world) 0 = Some (AwaitFetch ''blue'' ''1000'')"
    by code_simp
  have status: "\<not> res_ok 500"
    by (simp add: res_ok_def)
  have current: "\<not> stale ''1000'' awaiting_world"
    by code_simp
  have message: "show_nat 500 = ''500''"
    by code_simp
  from status have failure: "Response 500 = FetchRejected \<or> (\<exists>status. Response 500 = Response status \<and> \<not> res_ok status)"
    by simp
  from flight failure current
    remote_failure_handling [where w = awaiting_world and fid = 0 and query = "''blue''"
      and requestId = "''1000''" and out = "Response 500"]
  have "fetch_resume 0 ''blue'' ''1000'' (Response 500) (drop_flight 0 awaiting_world)
       = Inr (step (FetchSettle 0 (Response 500)) awaiting_world)
     \<and> prefetchCache (step (FetchSettle 0 (Response 500)) awaiting_world) = prefetchCache awaiting_world
     \<and> box (the_row (step (FetchSettle 0 (Response 500)) awaiting_world))
         = Message (case Response 500 of FetchRejected \<Rightarrow> ''Search failed''
                    | Response status \<Rightarrow> ''Search failed ('' @ show_nat status @ '')'')
     \<and> \<not> box_hidden (the_row (step (FetchSettle 0 (Response 500)) awaiting_world))"
    by blast
  with flight status current message show ?thesis
    by simp
qed

text \<open>
  Claim C1: what the code does when the superseding query is shorter than two characters.
  The user types \<open>blue\<close>, the debounce timer fires and the request is sent; the user then
  edits the text to \<open>b\<close>, which renders the local matches but leaves the token as it was;
  the response for \<open>blue\<close> arrives and passes both token checks. The box ends up showing
  the remote result of \<open>blue\<close> while the input reads \<open>b\<close>.
\<close>

theorem late_response_rendered:
  "search_value (the_row (run late_response init_world)) = ''b''
   \<and> remote_request_id (the_row (run late_response init_world)) = Some ''1000''
   \<and> requests (run late_response init_world) = [PrefetchReq 300, SearchReq ''blue'']
   \<and> box (the_row (run late_response init_world)) = Suggestions [blue_marker]
   \<and> box (the_row (run (take 3 late_response) init_world)) = Message ''No local matches''"
  by code_simp

end
